theory Spec2Isabelle
  imports Main
begin

section \<open>JavaScript values as the client code observes them\<close>

text \<open>
  The client is JavaScript/TypeScript running in a browser. Inbound payloads are the
  results of \<^verbatim>\<open>JSON.parse\<close>, so a runtime value is a JSON value; a number carries its
  ECMAScript \<^verbatim>\<open>ToString\<close> rendering, which is all this code ever observes of a number.
  An object lists each of its keys once, as \<^verbatim>\<open>JSON.parse\<close> builds it.
  \<^verbatim>\<open>undefined\<close> (a missing property) is \<open>None\<close> of \<open>json option\<close>.
  Strings are lists of \<open>char\<close>, a character standing for a code unit below 256.
\<close>

datatype json =
    JNull
  | JBool bool
  | JNum string
  | JStr string
  | JArr "json list"
  | JObj "(string \<times> json) list"

datatype exn =
    SyntaxError          \<comment> \<open>\<^verbatim>\<open>JSON.parse\<close> on malformed text\<close>
  | TypeError            \<comment> \<open>property read on \<^verbatim>\<open>null\<close>/\<^verbatim>\<open>undefined\<close>, call of a non-function, failed conversion\<close>
  | RequestFailed        \<comment> \<open>\<^verbatim>\<open>throw new Error('Stream request failed')\<close>\<close>
  | NetworkError         \<comment> \<open>a rejected \<^verbatim>\<open>fetch\<close> or \<^verbatim>\<open>reader.read()\<close>\<close>
  | ReferenceError       \<comment> \<open>a call of a function that no script defines\<close>

text \<open>
  \<^verbatim>\<open>data.k\<close> for the property names this code reads (\<^verbatim>\<open>type\<close>, \<^verbatim>\<open>content\<close>,
  \<^verbatim>\<open>analysis\<close>, \<^verbatim>\<open>cases\<close>, \<^verbatim>\<open>message\<close>, \<^verbatim>\<open>level\<close>, \<^verbatim>\<open>workflow_id\<close>): a
  \<^verbatim>\<open>TypeError\<close> on \<^verbatim>\<open>null\<close>, the stored value on an object, and \<^verbatim>\<open>undefined\<close> on
  every other value (none of these names is on a prototype).
\<close>

fun get_prop :: "json \<Rightarrow> string \<Rightarrow> exn + json option" where
  "get_prop JNull k = Inl TypeError"
| "get_prop (JObj kvs) k = Inr (map_of kvs k)"
| "get_prop (JBool b) k = Inr None"
| "get_prop (JNum r) k = Inr None"
| "get_prop (JStr s) k = Inr None"
| "get_prop (JArr xs) k = Inr None"

text \<open>
  Conversion to a string, as \<^verbatim>\<open>s += v\<close> performs it on a parsed value. An object converts
  through the inherited \<^verbatim>\<open>toString\<close> unless an own property of that name (never callable
  in parsed JSON) shadows it, in which case the conversion throws. An array joins its
  elements with commas, \<^verbatim>\<open>null\<close> elements rendering as the empty string.
\<close>

fun to_string :: "json \<Rightarrow> string option"
  and join_elems :: "json list \<Rightarrow> string option" where
  "to_string JNull = Some ''null''"
| "to_string (JBool b) = Some (if b then ''true'' else ''false'')"
| "to_string (JNum r) = Some r"
| "to_string (JStr s) = Some s"
| "to_string (JArr xs) = join_elems xs"
| "to_string (JObj kvs) =
     (if map_of kvs ''toString'' = None then Some ''[object Object]'' else None)"
| "join_elems [] = Some []"
| "join_elems (x # xs) =
     (case (if x = JNull then Some [] else to_string x) of
        None \<Rightarrow> None
      | Some s \<Rightarrow>
          (if xs = [] then Some s
           else (case join_elems xs of None \<Rightarrow> None | Some r \<Rightarrow> Some (s @ '','' @ r))))"

definition concat_operand :: "json option \<Rightarrow> exn + string" where
  "concat_operand v =
     (case v of
        None \<Rightarrow> Inr ''undefined''
      | Some j \<Rightarrow> (case to_string j of None \<Rightarrow> Inl TypeError | Some s \<Rightarrow> Inr s))"

text \<open>\<^verbatim>\<open>s.split('\n')\<close>: never empty; a trailing newline yields a final empty segment.\<close>

fun split_nl :: "string \<Rightarrow> string list" where
  "split_nl [] = [[]]"
| "split_nl (c # cs) =
     (if c = CHR ''\<newline>'' then [] # split_nl cs
      else (let rest = split_nl cs in (c # hd rest) # tl rest))"

definition startsWith :: "string \<Rightarrow> string \<Rightarrow> bool" where
  "startsWith s p = (take (length p) s = p)"

text \<open>
  \<^verbatim>\<open>toLowerCase\<close> and \<^verbatim>\<open>includes\<close> on strings whose characters are code units below 256:
  the letters A to Z and the upper-case letters of Latin-1 move 32 places up.
\<close>

definition lower_char :: "char \<Rightarrow> char" where
  "lower_char c =
     (let n = (of_char c :: nat)
      in if (65 \<le> n \<and> n \<le> 90) \<or> (192 \<le> n \<and> n \<le> 222 \<and> n \<noteq> 215)
         then char_of (n + 32) else c)"

definition toLowerCase :: "string \<Rightarrow> string" where
  "toLowerCase s = map lower_char s"

fun str_includes :: "string \<Rightarrow> string \<Rightarrow> bool" where
  "str_includes [] p = (p = [])"
| "str_includes (c # cs) p = (startsWith (c # cs) p \<or> str_includes cs p)"

text \<open>
  \<^verbatim>\<open>!s.trim()\<close>: the string is empty once white space is trimmed, that is, it consists
  of white space only (tab, line feed, vertical tab, form feed, carriage return, space,
  no-break space).
\<close>

definition blank :: "string \<Rightarrow> bool" where
  "blank s = list_all (\<lambda>c. (of_char c :: nat) \<in> {9, 10, 11, 12, 13, 32, 160}) s"

text \<open>Decimal rendering of a clock reading, for \<^verbatim>\<open>'msg_' + Date.now()\<close>.\<close>

fun dec :: "nat \<Rightarrow> string" where
  "dec n =
     (if n < 10 then [''0123456789'' ! n]
      else dec (n div 10) @ [''0123456789'' ! (n mod 10)])"

declare dec.simps [simp del]

section \<open>The stream accumulator (\<^verbatim>\<open>frontend/js/chat.js\<close>)\<close>

text \<open>
  What the page and the chat store look like to \<^verbatim>\<open>sendStreamingMessage\<close> and its helpers.
  A message element is the \<^verbatim>\<open>div\<close> built by \<^verbatim>\<open>createMessageElement\<close>: its id, whether it
  carries the class \<^verbatim>\<open>streaming\<close>, the content of its \<^verbatim>\<open>.message-bubble\<close>, and whether the
  bubble ends in the \<^verbatim>\<open>typing-cursor\<close> span. A stored message is an entry of
  \<^verbatim>\<open>ChatState.messages\<close> (the fields this code reads back).
\<close>

record element =
  el_id :: string
  el_streaming :: bool
  el_bubble :: string
  el_cursor :: bool

record chat_message =
  msg_id :: string
  msg_type :: string
  msg_content :: string
  msg_isStreaming :: "bool option"

datatype ui_call =
    UpdateStreamingMessage string string
  | UpdateAnalysisPanel "json option"
  | FinalizeStreamingMessage "string option"

text \<open>
  \<open>ChatState_messages\<close> is \<open>None\<close> while the property is \<^verbatim>\<open>undefined\<close>: the literal that
  creates \<^verbatim>\<open>ChatState\<close> has no \<^verbatim>\<open>messages\<close> field, and every use of it
  (\<^verbatim>\<open>push\<close>, \<^verbatim>\<open>find\<close>) throws until some script has stored an array there.
  \<open>clock\<close> lists the successive readings of \<^verbatim>\<open>Date.now()\<close>; \<open>clock_reads\<close> counts
  the readings taken so far. \<open>ui_calls\<close> records each call of a rendering helper made
  by the read loop, \<open>console\<close> each \<^verbatim>\<open>console.error\<close>.
\<close>

record chat_world =
  document :: "element list"
  has_chatMessages :: bool
  ChatState_messages :: "chat_message list option"
  clock :: "nat \<Rightarrow> nat"
  clock_reads :: nat
  ui_calls :: "ui_call list"
  console :: "exn list"

text \<open>
  The platform and library functions the loop calls: \<^verbatim>\<open>JSON.parse\<close> (\<open>None\<close> when it
  throws a \<^verbatim>\<open>SyntaxError\<close>), \<^verbatim>\<open>window.marked.parse\<close> when the markdown library is loaded,
  and whether \<^verbatim>\<open>updateAnalysisPanel\<close> (defined in another script) throws on a payload.
\<close>

record env =
  json_parse :: "string \<Rightarrow> json option"
  marked :: "(string \<Rightarrow> string) option"
  analysis_throws :: "json option \<Rightarrow> bool"

record session =
  assistantMessageId :: "string option"
  accumulatedContent :: string

definition Date_now :: "chat_world \<Rightarrow> nat \<times> chat_world" where
  "Date_now w = (clock w (clock_reads w), w\<lparr>clock_reads := Suc (clock_reads w)\<rparr>)"

definition console_error :: "exn \<Rightarrow> chat_world \<Rightarrow> chat_world" where
  "console_error e w = w\<lparr>console := console w @ [e]\<rparr>"

text \<open>\<^verbatim>\<open>document.getElementById\<close> returns the first element with the id, in document order.\<close>

definition getElementById :: "string \<Rightarrow> chat_world \<Rightarrow> element option" where
  "getElementById i w = find (\<lambda>e. el_id e = i) (document w)"

fun update_first :: "('a \<Rightarrow> bool) \<Rightarrow> ('a \<Rightarrow> 'a) \<Rightarrow> 'a list \<Rightarrow> 'a list" where
  "update_first P f [] = []"
| "update_first P f (x # xs) = (if P x then f x # xs else x # update_first P f xs)"

definition appendMessage :: "element \<Rightarrow> chat_world \<Rightarrow> chat_world" where
  "appendMessage el w =
     (if \<not> has_chatMessages w then w else w\<lparr>document := document w @ [el]\<rparr>)"

definition createMessageElement :: "env \<Rightarrow> string \<Rightarrow> element" where
  "createMessageElement ev content =
     \<lparr>el_id = [], el_streaming = False,
      el_bubble = (case marked ev of Some render \<Rightarrow> render content | None \<Rightarrow> content),
      el_cursor = False\<rparr>"

text \<open>
  \<^verbatim>\<open>addAssistantMessage(content, isStreaming)\<close>: the element is appended before the store
  is touched, so it stays in the page when \<^verbatim>\<open>ChatState.messages.push\<close> throws.
\<close>

definition addAssistantMessage ::
  "env \<Rightarrow> string \<Rightarrow> bool \<Rightarrow> chat_world \<Rightarrow> (exn + string) \<times> chat_world" where
  "addAssistantMessage ev content isStreaming w =
     (let (t, w1) = Date_now w;
          messageId = ''msg_'' @ dec t;
          messageDiv = (createMessageElement ev content)
                         \<lparr>el_id := messageId, el_streaming := isStreaming\<rparr>;
          w2 = appendMessage messageDiv w1
      in case ChatState_messages w2 of
           None \<Rightarrow> (Inl TypeError, w2)
         | Some ms \<Rightarrow>
             (Inr messageId,
              w2\<lparr>ChatState_messages :=
                   Some (ms @ [\<lparr>msg_id = messageId, msg_type = ''assistant'',
                                msg_content = content,
                                msg_isStreaming = Some isStreaming\<rparr>])\<rparr>))"

text \<open>
  \<^verbatim>\<open>addUserMessage(content, files)\<close>, which \<^verbatim>\<open>sendEnhancedMessage\<close> calls before anything
  else, and outside its \<^verbatim>\<open>try\<close>: \<^verbatim>\<open>sendStreamingMessage\<close> is reached only when this call
  has returned. (The attachments are shown in the bubble and stored with the message;
  nothing here reads them back.)
\<close>

definition addUserMessage ::
  "string \<Rightarrow> chat_world \<Rightarrow> (exn + string) \<times> chat_world" where
  "addUserMessage content w =
     (let (t, w1) = Date_now w;
          messageId = ''msg_'' @ dec t;
          messageDiv = \<lparr>el_id = messageId, el_streaming = False, el_bubble = content,
                         el_cursor = False\<rparr>;
          w2 = appendMessage messageDiv w1
      in case ChatState_messages w2 of
           None \<Rightarrow> (Inl TypeError, w2)
         | Some ms \<Rightarrow>
             (Inr messageId,
              w2\<lparr>ChatState_messages :=
                   Some (ms @ [\<lparr>msg_id = messageId, msg_type = ''user'',
                                msg_content = content, msg_isStreaming = None\<rparr>])\<rparr>))"

definition updateStreamingMessage :: "env \<Rightarrow> string \<Rightarrow> string \<Rightarrow> chat_world \<Rightarrow> chat_world" where
  "updateStreamingMessage ev messageId content w =
     (case getElementById messageId w of
        None \<Rightarrow> w
      | Some _ \<Rightarrow>
          w\<lparr>document :=
               update_first (\<lambda>e. el_id e = messageId)
                 (\<lambda>e. case marked ev of
                         Some render \<Rightarrow> e\<lparr>el_bubble := render content, el_cursor := True\<rparr>
                       | None \<Rightarrow> e\<lparr>el_bubble := content, el_cursor := False\<rparr>)
                 (document w)\<rparr>)"

text \<open>
  \<^verbatim>\<open>finalizeStreamingMessage(messageId)\<close>. \<^verbatim>\<open>getElementById(null)\<close> looks the string
  \<^verbatim>\<open>"null"\<close> up. The result is the exception thrown, if any, and the page after the call.
\<close>

definition finalizeStreamingMessage ::
  "string option \<Rightarrow> chat_world \<Rightarrow> exn option \<times> chat_world" where
  "finalizeStreamingMessage messageId w =
     (let key = (case messageId of None \<Rightarrow> ''null'' | Some i \<Rightarrow> i)
      in case getElementById key w of
           None \<Rightarrow> (None, w)
         | Some _ \<Rightarrow>
             (let w1 = w\<lparr>document :=
                           update_first (\<lambda>e. el_id e = key)
                             (\<lambda>e. e\<lparr>el_streaming := False, el_cursor := False\<rparr>)
                             (document w)\<rparr>
              in case ChatState_messages w1 of
                   None \<Rightarrow> (Some TypeError, w1)
                 | Some ms \<Rightarrow>
                     (None,
                      w1\<lparr>ChatState_messages :=
                           Some (update_first (\<lambda>m. Some (msg_id m) = messageId)
                                   (\<lambda>m. m\<lparr>msg_isStreaming := Some False\<rparr>) ms)\<rparr>)))"

definition called :: "ui_call \<Rightarrow> chat_world \<Rightarrow> chat_world" where
  "called c w = w\<lparr>ui_calls := ui_calls w @ [c]\<rparr>"

text \<open>
  The body of the \<^verbatim>\<open>try\<close> block for one parsed payload. The first component is the
  exception that ends the block early, if any; the session and the page are as the
  block left them at that point (the \<^verbatim>\<open>+=\<close> on \<^verbatim>\<open>accumulatedContent\<close> has already
  happened when \<^verbatim>\<open>addAssistantMessage\<close> throws).
\<close>

definition handle_data ::
  "env \<Rightarrow> json \<Rightarrow> session \<times> chat_world \<Rightarrow> exn option \<times> session \<times> chat_world" where
  "handle_data ev data st =
     (let (ss, w) = st in
      case get_prop data ''type'' of
        Inl e \<Rightarrow> (Some e, ss, w)
      | Inr ty \<Rightarrow>
          if ty = Some (JStr ''content'') then
            (case concat_operand (case get_prop data ''content'' of Inr v \<Rightarrow> v | Inl _ \<Rightarrow> None) of
               Inl e \<Rightarrow> (Some e, ss, w)
             | Inr delta \<Rightarrow>
                 (let ss1 = ss\<lparr>accumulatedContent := accumulatedContent ss @ delta\<rparr> in
                  case assistantMessageId ss1 of
                    Some i \<Rightarrow>
                      (None, ss1,
                       updateStreamingMessage ev i (accumulatedContent ss1)
                         (called (UpdateStreamingMessage i (accumulatedContent ss1)) w))
                  | None \<Rightarrow>
                      (case addAssistantMessage ev [] True w of
                         (Inl e, w1) \<Rightarrow> (Some e, ss1, w1)
                       | (Inr i, w1) \<Rightarrow>
                           (None, ss1\<lparr>assistantMessageId := Some i\<rparr>,
                            updateStreamingMessage ev i (accumulatedContent ss1)
                              (called (UpdateStreamingMessage i (accumulatedContent ss1)) w1)))))
          else if ty = Some (JStr ''analysis'') then
            (let payload = (case get_prop data ''analysis'' of Inr v \<Rightarrow> v | Inl _ \<Rightarrow> None);
                 w1 = called (UpdateAnalysisPanel payload) w
             in (if analysis_throws ev payload then Some TypeError else None, ss, w1))
          else if ty = Some (JStr ''complete'') then
            (case finalizeStreamingMessage (assistantMessageId ss)
                    (called (FinalizeStreamingMessage (assistantMessageId ss)) w) of
               (r, w1) \<Rightarrow> (r, ss, w1))
          else (None, ss, w))"

text \<open>
  One line of a decoded chunk: lines without the \<^verbatim>\<open>data: \<close> marker are skipped; the rest of
  a marked line goes through \<^verbatim>\<open>JSON.parse\<close> and the \<^verbatim>\<open>try\<close> body, and whatever either
  throws is caught and logged.
\<close>

definition process_line :: "env \<Rightarrow> session \<times> chat_world \<Rightarrow> string \<Rightarrow> session \<times> chat_world" where
  "process_line ev st line =
     (if startsWith line ''data: '' then
        (case json_parse ev (drop 6 line) of
           None \<Rightarrow> (fst st, console_error SyntaxError (snd st))
         | Some data \<Rightarrow>
             (case handle_data ev data st of
                (None, ss, w) \<Rightarrow> (ss, w)
              | (Some e, ss, w) \<Rightarrow> (ss, console_error e w)))
      else st)"

text \<open>
  One iteration of the \<^verbatim>\<open>while (true)\<close> loop on a decoded chunk, and the loop over the
  chunks that \<^verbatim>\<open>reader.read()\<close> delivers before it reports \<^verbatim>\<open>done\<close>. Nothing is carried
  from one chunk to the next except the session and the page.
\<close>

definition process_chunk :: "env \<Rightarrow> session \<times> chat_world \<Rightarrow> string \<Rightarrow> session \<times> chat_world" where
  "process_chunk ev st chunk = foldl (process_line ev) st (split_nl chunk)"

definition read_loop :: "env \<Rightarrow> session \<times> chat_world \<Rightarrow> string list \<Rightarrow> session \<times> chat_world" where
  "read_loop ev st chunks = foldl (process_chunk ev) st chunks"

definition new_session :: session where
  "new_session = \<lparr>assistantMessageId = None, accumulatedContent = []\<rparr>"

text \<open>
  The response as \<^verbatim>\<open>sendStreamingMessage\<close> sees it: \<^verbatim>\<open>fetch\<close> rejects, or it resolves with
  an \<^verbatim>\<open>ok\<close> flag and a body that delivers some chunks and then either ends or fails.
  Each chunk is the text \<^verbatim>\<open>decoder.decode(value)\<close> returns for one read. The call of
  \<^verbatim>\<open>removeTypingIndicator\<close> before the loop touches the typing indicator only and is
  left out.
\<close>

datatype body_end = Done | ReadRejected

datatype response = FetchRejected | Response bool "string list" body_end

fun sendStreamingMessage ::
  "env \<Rightarrow> response \<Rightarrow> chat_world \<Rightarrow> (exn + session) \<times> chat_world" where
  "sendStreamingMessage ev FetchRejected w = (Inl NetworkError, w)"
| "sendStreamingMessage ev (Response ok chunks ending) w =
     (if \<not> ok then (Inl RequestFailed, w)
      else (let (ss, w1) = read_loop ev (new_session, w) chunks
            in case ending of
                 Done \<Rightarrow> (Inr ss, w1)
               | ReadRejected \<Rightarrow> (Inl NetworkError, w1)))"

subsection \<open>Notions used to state the accumulator's properties\<close>

text \<open>
  A valid \<^verbatim>\<open>content\<close> chunk carrying the delta \<open>c\<close>: a marked line whose payload parses
  to an object with \<^verbatim>\<open>type === 'content'\<close> and the string \<open>c\<close> as \<^verbatim>\<open>content\<close>.
  A \<^verbatim>\<open>complete\<close> chunk likewise.
\<close>

definition content_line :: "env \<Rightarrow> string \<Rightarrow> string \<Rightarrow> bool" where
  "content_line ev l c =
     (startsWith l ''data: '' \<and>
      (case json_parse ev (drop 6 l) of
         None \<Rightarrow> False
       | Some d \<Rightarrow> get_prop d ''type'' = Inr (Some (JStr ''content'')) \<and>
                   get_prop d ''content'' = Inr (Some (JStr c))))"

definition complete_line :: "env \<Rightarrow> string \<Rightarrow> bool" where
  "complete_line ev l =
     (startsWith l ''data: '' \<and>
      (case json_parse ev (drop 6 l) of
         None \<Rightarrow> False
       | Some d \<Rightarrow> get_prop d ''type'' = Inr (Some (JStr ''complete''))))"

text \<open>The successive values of the accumulated text as the deltas \<open>cs\<close> arrive.\<close>

fun running :: "string \<Rightarrow> string list \<Rightarrow> string list" where
  "running acc [] = []"
| "running acc (c # cs) = (acc @ c) # running (acc @ c) cs"

text \<open>The page with its console log blanked: two pages equal up to what was logged.\<close>

definition without_console :: "chat_world \<Rightarrow> chat_world" where
  "without_console w = w\<lparr>console := []\<rparr>"

text \<open>A chunk that ends on a line boundary (or is empty).\<close>

definition line_aligned :: "string \<Rightarrow> bool" where
  "line_aligned chunk = (chunk = [] \<or> last chunk = CHR ''\<newline>'')"

text \<open>
  A chunk of type \<^verbatim>\<open>content\<close>, valid or not: a marked line whose payload parses to a
  value with \<^verbatim>\<open>type === 'content'\<close>. The deltas of a list of lines are those of its
  valid \<^verbatim>\<open>content\<close> chunks, in order.
\<close>

definition typed_content :: "env \<Rightarrow> string \<Rightarrow> bool" where
  "typed_content ev l =
     (startsWith l ''data: '' \<and>
      (case json_parse ev (drop 6 l) of
         None \<Rightarrow> False
       | Some d \<Rightarrow> get_prop d ''type'' = Inr (Some (JStr ''content''))))"

definition content_delta :: "env \<Rightarrow> string \<Rightarrow> string option" where
  "content_delta ev l =
     (if typed_content ev l then
        (case json_parse ev (drop 6 l) of
           None \<Rightarrow> None
         | Some d \<Rightarrow> (case get_prop d ''content'' of Inr (Some (JStr c)) \<Rightarrow> Some c | _ \<Rightarrow> None))
      else None)"

fun deltas :: "env \<Rightarrow> string list \<Rightarrow> string list" where
  "deltas ev [] = []"
| "deltas ev (l # ls) =
     (case content_delta ev l of None \<Rightarrow> deltas ev ls | Some c \<Rightarrow> c # deltas ev ls)"

text \<open>
  What a line makes \<^verbatim>\<open>accumulatedContent += data.content\<close> append: the converted
  \<^verbatim>\<open>content\<close> of a chunk of type \<^verbatim>\<open>content\<close> when the conversion succeeds, and nothing
  for every other line (the statement is not reached, or it throws).
\<close>

definition append_operand :: "env \<Rightarrow> string \<Rightarrow> string option" where
  "append_operand ev l =
     (if typed_content ev l then
        (case json_parse ev (drop 6 l) of
           None \<Rightarrow> None
         | Some d \<Rightarrow>
             (case concat_operand (case get_prop d ''content'' of Inr v \<Rightarrow> v | Inl _ \<Rightarrow> None) of
                Inr s \<Rightarrow> Some s
              | Inl _ \<Rightarrow> None))
      else None)"

text \<open>The lines of a response body, read by read, as the loop visits them.\<close>

definition lines_of :: "string list \<Rightarrow> string list" where
  "lines_of chunks = concat (map split_nl chunks)"

text \<open>The calls of \<^verbatim>\<open>updateStreamingMessage\<close> among the calls of rendering helpers.\<close>

fun is_update :: "ui_call \<Rightarrow> bool" where
  "is_update (UpdateStreamingMessage i c) = True"
| "is_update (UpdateAnalysisPanel a) = False"
| "is_update (FinalizeStreamingMessage i) = False"

definition updates :: "chat_world \<Rightarrow> ui_call list" where
  "updates w = filter is_update (ui_calls w)"

text \<open>
  The message with id \<open>i\<close> is finalized: the page has an element with this id and the
  store a message with it, no element with the id carries the \<^verbatim>\<open>streaming\<close> class or
  the cursor any more, and every stored message with the id has \<^verbatim>\<open>isStreaming === false\<close>.
  The session is finalized when it has a message and that message is.
\<close>

definition message_finalized :: "string \<Rightarrow> chat_world \<Rightarrow> bool" where
  "message_finalized i w =
     ((\<exists>e \<in> set (document w). el_id e = i) \<and>
      (\<forall>e \<in> set (document w). el_id e = i \<longrightarrow> \<not> el_streaming e \<and> \<not> el_cursor e) \<and>
      (case ChatState_messages w of
         None \<Rightarrow> False
       | Some ms \<Rightarrow>
           (\<exists>m \<in> set ms. msg_id m = i) \<and>
           (\<forall>m \<in> set ms. msg_id m = i \<longrightarrow> msg_isStreaming m = Some False)))"

definition session_finalized :: "session \<times> chat_world \<Rightarrow> bool" where
  "session_finalized st =
     (case assistantMessageId (fst st) of
        None \<Rightarrow> False
      | Some i \<Rightarrow> message_finalized i (snd st))"

text \<open>
  Two stages of a session on a page that has the message container and the store.
  \<open>awaiting i\<close>: no message has been created yet, the next one will get the id \<open>i\<close>
  (the clock reading to come), and nothing carries that id. \<open>created i\<close>: the session's
  message has the id \<open>i\<close>, which one element and one stored message carry.
\<close>

definition awaiting :: "string \<Rightarrow> session \<times> chat_world \<Rightarrow> bool" where
  "awaiting i st =
     (assistantMessageId (fst st) = None \<and> has_chatMessages (snd st) \<and>
      i = ''msg_'' @ dec (clock (snd st) (clock_reads (snd st))) \<and>
      i \<notin> set (map el_id (document (snd st))) \<and>
      (case ChatState_messages (snd st) of
         None \<Rightarrow> False
       | Some ms \<Rightarrow> i \<notin> set (map msg_id ms)))"

definition created :: "string \<Rightarrow> session \<times> chat_world \<Rightarrow> bool" where
  "created i st =
     (assistantMessageId (fst st) = Some i \<and> has_chatMessages (snd st) \<and>
      count_list (map el_id (document (snd st))) i = 1 \<and>
      (case ChatState_messages (snd st) of
         None \<Rightarrow> False
       | Some ms \<Rightarrow> count_list (map msg_id ms) i = 1))"

subsection \<open>A concrete platform and page for the examples\<close>

text \<open>
  \<open>sample_parse\<close> is \<^verbatim>\<open>JSON.parse\<close> restricted to the payloads the examples use: on each
  listed text it returns the value \<^verbatim>\<open>JSON.parse\<close> returns; the other texts the examples
  feed it (\<^verbatim>\<open>{"type":"content","con\<close>, \<^verbatim>\<open>not json\<close>) are malformed, and
  \<^verbatim>\<open>JSON.parse\<close> throws on them.
\<close>

definition sample_parse :: "string \<Rightarrow> json option" where
  \<open>sample_parse s =
     (if s = ''{"type":"content","content":"Hel"}'' then
        Some (JObj [(''type'', JStr ''content''), (''content'', JStr ''Hel'')])
      else if s = ''{"type":"content","content":"lo"}'' then
        Some (JObj [(''type'', JStr ''content''), (''content'', JStr ''lo'')])
      else if s = ''{"type":"complete"}'' then
        Some (JObj [(''type'', JStr ''complete'')])
      else if s = ''{"type":"workflow_update","status":"running","currentStep":"Analyze Structure","progress":0.5}'' then
        Some (JObj [(''type'', JStr ''workflow_update''), (''status'', JStr ''running''),
                    (''currentStep'', JStr ''Analyze Structure''), (''progress'', JNum ''0.5'')])
      else if s = ''{"type":"heartbeat"}'' then
        Some (JObj [(''type'', JStr ''heartbeat'')])
      else if s = ''null'' then Some JNull
      else None)\<close>

definition sample_env :: env where
  "sample_env =
     \<lparr>json_parse = sample_parse, marked = Some (\<lambda>s. ''<p>'' @ s @ ''</p>''),
      analysis_throws = (\<lambda>a. a = None)\<rparr>"

definition sample_world :: chat_world where
  "sample_world =
     \<lparr>document = [], has_chatMessages = True, ChatState_messages = Some [],
      clock = (\<lambda>n. 1000 + n), clock_reads = 0, ui_calls = [], console = []\<rparr>"

text \<open>
  The page as \<^verbatim>\<open>chat.js\<close> itself sets it up: the literal that creates \<^verbatim>\<open>ChatState\<close> has
  no \<^verbatim>\<open>messages\<close> field and no script stores one, so the property is \<^verbatim>\<open>undefined\<close>.
\<close>

definition shipped_world :: chat_world where
  "shipped_world =
     \<lparr>document = [], has_chatMessages = True, ChatState_messages = None,
      clock = (\<lambda>n. 1000 + n), clock_reads = 0, ui_calls = [], console = []\<rparr>"


section \<open>Timers and sockets of the browser\<close>

text \<open>
  The fixture and socket event shapes declared in \<^verbatim>\<open>hooks/useWebSocket\<close>; the mock buckets
  of the page hold these records.
\<close>

record argument_generated =
  agent :: string
  content :: string
  thinking :: string
  timestamp :: nat

record debate_turn =
  turn :: nat
  prosecutor_argument :: string
  prosecutor_thinking :: string
  defender_response :: string
  defender_thinking :: string

record feedback_ready =
  recommendations :: "string list"
  strengths :: "string list"
  weaknesses :: "string list"

text \<open>
  A pending \<^verbatim>\<open>setTimeout\<close>: its handle, its delay in milliseconds and what its callback
  does. \<^verbatim>\<open>setTimeout\<close> returns a fresh positive handle (so a stored handle is always
  truthy); \<^verbatim>\<open>clearTimeout\<close> drops the timer if it is still pending. A socket is a
  \<^verbatim>\<open>WebSocket\<close> object that was created, with its URL and whether \<^verbatim>\<open>close()\<close> was called on it.
\<close>

record 'act timer =
  timer_id :: nat
  delay :: nat
  action :: 'act

record web_socket =
  ws_id :: nat
  ws_url :: string
  ws_closing :: bool

record 'act browser =
  timers :: "'act timer list"
  timers_created :: nat
  sockets :: "web_socket list"
  error_log :: "(string \<times> exn option) list"

definition setTimeout ::
  "'act \<Rightarrow> nat \<Rightarrow> ('act, 'x) browser_scheme \<Rightarrow> nat \<times> ('act, 'x) browser_scheme" where
  "setTimeout act ms b =
     (let h = Suc (timers_created b)
      in (h, b\<lparr>timers := timers b @ [\<lparr>timer_id = h, delay = ms, action = act\<rparr>],
               timers_created := h\<rparr>))"

definition clearTimeout :: "nat \<Rightarrow> ('act, 'x) browser_scheme \<Rightarrow> ('act, 'x) browser_scheme" where
  "clearTimeout h b = b\<lparr>timers := filter (\<lambda>t. timer_id t \<noteq> h) (timers b)\<rparr>"

definition new_WebSocket ::
  "string \<Rightarrow> ('act, 'x) browser_scheme \<Rightarrow> nat \<times> ('act, 'x) browser_scheme" where
  "new_WebSocket u b =
     (let i = length (sockets b)
      in (i, b\<lparr>sockets := sockets b @ [\<lparr>ws_id = i, ws_url = u, ws_closing = False\<rparr>]\<rparr>))"

definition socket_close :: "nat \<Rightarrow> ('act, 'x) browser_scheme \<Rightarrow> ('act, 'x) browser_scheme" where
  "socket_close i b =
     b\<lparr>sockets := map (\<lambda>s. if ws_id s = i then s\<lparr>ws_closing := True\<rparr> else s) (sockets b)\<rparr>"

definition console_error_msg ::
  "string \<Rightarrow> exn option \<Rightarrow> ('act, 'x) browser_scheme \<Rightarrow> ('act, 'x) browser_scheme" where
  "console_error_msg m e b = b\<lparr>error_log := error_log b @ [(m, e)]\<rparr>"

section \<open>The workflow channel: the \<^verbatim>\<open>useWebSocket\<close> hook\<close>

text \<open>
  Every timer of the page's window is one of these: the reconnection scheduled by
  \<^verbatim>\<open>ws.onclose\<close> (its closure calls \<^verbatim>\<open>connect()\<close> for the workflow id it captured), or one
  of the three callbacks the fallback simulator schedules.
\<close>

datatype page_action =
    Reconnect string
  | PushMockArgument argument_generated
  | PushMockDebateTurn debate_turn
  | SetMockFeedback feedback_ready

text \<open>
  The hook's React state and its ref. The buckets hold parsed payloads as they arrived
  (the TypeScript types are erased at run time).
\<close>

record hook = "page_action browser" +
  socket :: "nat option"
  isConnected :: bool
  messages :: "json list"
  workflowStatus :: "json option"
  wsArguments :: "json list"
  debateTurns :: "json list"
  feedback :: "json option"
  reconnectTimeoutRef :: "nat option"

text \<open>\<^verbatim>\<open>connect()\<close> as closed over \<open>workflowId\<close>; an undefined or empty id is falsy.\<close>

definition connect :: "string option \<Rightarrow> 'x hook_scheme \<Rightarrow> 'x hook_scheme" where
  "connect workflowId h =
     (case workflowId of
        None \<Rightarrow> h
      | Some wid \<Rightarrow>
          if wid = [] then h
          else (let (ws, h1) = new_WebSocket (''ws://localhost:8000/ws/'' @ wid) h
                in h1\<lparr>socket := Some ws\<rparr>))"

definition ws_onopen :: "'x hook_scheme \<Rightarrow> 'x hook_scheme" where
  "ws_onopen h =
     (let h1 = h\<lparr>isConnected := True\<rparr>
      in case reconnectTimeoutRef h1 of
           None \<Rightarrow> h1
         | Some t \<Rightarrow> clearTimeout t h1)"

definition ws_onmessage :: "(string \<Rightarrow> json option) \<Rightarrow> string \<Rightarrow> 'x hook_scheme \<Rightarrow> 'x hook_scheme" where
  "ws_onmessage parse raw h =
     (case parse raw of
        None \<Rightarrow> console_error_msg ''Error parsing WebSocket message:'' (Some SyntaxError) h
      | Some data \<Rightarrow>
          (let h1 = h\<lparr>messages := messages h @ [data]\<rparr>
           in case get_prop data ''type'' of
                Inl e \<Rightarrow> console_error_msg ''Error parsing WebSocket message:'' (Some e) h1
              | Inr ty \<Rightarrow>
                  if ty = Some (JStr ''workflow_update'') then h1\<lparr>workflowStatus := Some data\<rparr>
                  else if ty = Some (JStr ''argument_generated'') then
                    h1\<lparr>wsArguments := wsArguments h1 @ [data]\<rparr>
                  else if ty = Some (JStr ''debate_turn'') then
                    h1\<lparr>debateTurns := debateTurns h1 @ [data]\<rparr>
                  else if ty = Some (JStr ''feedback_ready'') then h1\<lparr>feedback := Some data\<rparr>
                  else h1))"

definition ws_onerror :: "'x hook_scheme \<Rightarrow> 'x hook_scheme" where
  "ws_onerror h = console_error_msg ''WebSocket error:'' None h"

definition ws_onclose :: "string \<Rightarrow> 'x hook_scheme \<Rightarrow> 'x hook_scheme" where
  "ws_onclose wid h =
     (let h1 = h\<lparr>isConnected := False, socket := None\<rparr>;
          (t, h2) = setTimeout (Reconnect wid) 3000 h1
      in h2\<lparr>reconnectTimeoutRef := Some t\<rparr>)"

text \<open>
  The cleanup returned by the effect. \<open>captured\<close> is the value of \<^verbatim>\<open>socket\<close> in the render
  whose effect created the cleanup, the one the closure reads.
\<close>

definition cleanup :: "nat option \<Rightarrow> 'x hook_scheme \<Rightarrow> 'x hook_scheme" where
  "cleanup captured h =
     (let h1 = (case captured of None \<Rightarrow> h | Some ws \<Rightarrow> socket_close ws h)
      in case reconnectTimeoutRef h1 of
           None \<Rightarrow> h1
         | Some t \<Rightarrow> clearTimeout t h1)"

text \<open>The events a socket of the hook can deliver, and the handler each one runs.\<close>

datatype ws_event = Opened | Received string | Errored | Closed

fun ws_handle :: "(string \<Rightarrow> json option) \<Rightarrow> string \<Rightarrow> 'x hook_scheme \<Rightarrow> ws_event \<Rightarrow> 'x hook_scheme" where
  "ws_handle parse wid h Opened = ws_onopen h"
| "ws_handle parse wid h (Received raw) = ws_onmessage parse raw h"
| "ws_handle parse wid h Errored = ws_onerror h"
| "ws_handle parse wid h Closed = ws_onclose wid h"

text \<open>
  How the browser reports the end of a connection to the socket's handlers: a connection
  that fails (refused, dropped, protocol error) gets \<^verbatim>\<open>error\<close> and then \<^verbatim>\<open>close\<close>, one
  that is closed in an orderly way gets \<^verbatim>\<open>close\<close> alone. An \<^verbatim>\<open>error\<close> event is never
  delivered without the \<^verbatim>\<open>close\<close> event after it.
\<close>

datatype connection_end = Failed | Ended

fun end_events :: "connection_end \<Rightarrow> ws_event list" where
  "end_events Failed = [Errored, Closed]"
| "end_events Ended = [Closed]"

section \<open>The notification channel: \<^verbatim>\<open>initializeWebSocket\<close> of the main script\<close>

datatype main_action = Reinitialize

record main_app = "main_action browser" +
  websocket :: "nat option"

text \<open>
  \<^verbatim>\<open>initializeWebSocket\<close> creates the socket for the constant \<^verbatim>\<open>WS_URL\<close> and installs
  the handlers below; its \<^verbatim>\<open>try\<close> covers these statements only.
\<close>

definition initializeWebSocket :: "main_app \<Rightarrow> main_app" where
  "initializeWebSocket m =
     (let (ws, m1) = new_WebSocket ''ws://localhost:8000/ws'' m
      in m1\<lparr>websocket := Some ws\<rparr>)"

text \<open>
  JavaScript truthiness of a parsed value, for \<^verbatim>\<open>data.level || 'info'\<close>.
\<close>

fun truthy :: "json option \<Rightarrow> bool" where
  "truthy None = False"
| "truthy (Some JNull) = False"
| "truthy (Some (JBool b)) = b"
| "truthy (Some (JNum r)) = (r \<noteq> ''0'')"
| "truthy (Some (JStr s)) = (s \<noteq> [])"
| "truthy (Some (JArr xs)) = True"
| "truthy (Some (JObj kvs)) = True"

text \<open>
  \<^verbatim>\<open>handleWebSocketMessage(data)\<close>: which rendering helper the \<^verbatim>\<open>switch\<close> calls, with which
  arguments (\<open>None\<close>: no case matches). \<^verbatim>\<open>updateCaseList\<close> is defined by none of the
  scripts, so the call in the \<^verbatim>\<open>case_update\<close> branch throws a \<^verbatim>\<open>ReferenceError\<close> when
  the callee is looked up, before its argument is evaluated.
\<close>

datatype main_call =
    CallUpdateAnalysisPanel "json option"
  | CallShowToast "json option" "json option"

definition handleWebSocketMessage :: "json \<Rightarrow> exn + main_call option" where
  "handleWebSocketMessage data =
     (case get_prop data ''type'' of
        Inl e \<Rightarrow> Inl e
      | Inr ty \<Rightarrow>
          if ty = Some (JStr ''analysis_update'') then
            map_sum id (\<lambda>a. Some (CallUpdateAnalysisPanel a)) (get_prop data ''analysis'')
          else if ty = Some (JStr ''case_update'') then Inl ReferenceError
          else if ty = Some (JStr ''notification'') then
            (case (get_prop data ''message'', get_prop data ''level'') of
               (Inr m, Inr l) \<Rightarrow>
                 Inr (Some (CallShowToast m (if truthy l then l else Some (JStr ''info''))))
             | (Inl e, _) \<Rightarrow> Inl e
             | (_, Inl e) \<Rightarrow> Inl e)
          else Inr None)"

text \<open>
  \<^verbatim>\<open>AppState.websocket.onmessage\<close>: \<^verbatim>\<open>JSON.parse\<close> is called outside any \<^verbatim>\<open>try\<close>; the
  \<^verbatim>\<open>try\<close> of \<^verbatim>\<open>initializeWebSocket\<close> has long been left when the callback runs. \<open>Inl\<close> is
  the exception that leaves the handler.
\<close>

definition main_onmessage :: "(string \<Rightarrow> json option) \<Rightarrow> string \<Rightarrow> exn + main_call option" where
  "main_onmessage parse raw =
     (case parse raw of
        None \<Rightarrow> Inl SyntaxError
      | Some data \<Rightarrow> handleWebSocketMessage data)"

definition main_onerror :: "main_app \<Rightarrow> main_app" where
  "main_onerror m = console_error_msg ''WebSocket error:'' None m"

definition main_onclose :: "main_app \<Rightarrow> main_app" where
  "main_onclose m = snd (setTimeout Reinitialize 5000 m)"

datatype main_event = MainOpened | MainErrored | MainClosed

fun main_handle :: "main_app \<Rightarrow> main_event \<Rightarrow> main_app" where
  "main_handle m MainOpened = m"
| "main_handle m MainErrored = main_onerror m"
| "main_handle m MainClosed = main_onclose m"

fun main_end_events :: "connection_end \<Rightarrow> main_event list" where
  "main_end_events Failed = [MainErrored, MainClosed]"
| "main_end_events Ended = [MainClosed]"


section \<open>The fallback simulator (\<^verbatim>\<open>frontend/lib/mockData.ts\<close>, \<^verbatim>\<open>frontend/app/page.tsx\<close>)\<close>

text \<open>
  The canned scenarios of \<^verbatim>\<open>mockResponses\<close>, text for text. The two \<^verbatim>\<open>timestamp\<close> fields
  of the personal-injury scenario are \<^verbatim>\<open>Date.now()\<close> and \<^verbatim>\<open>Date.now() + 1000\<close>, read when
  the module is loaded; the generic single scenario reads the clock when
  \<^verbatim>\<open>getMockResponse\<close> is called. The three readings are parameters.
\<close>

record readings =
  load_now1 :: nat
  load_now2 :: nat
  call_now :: nat

definition personalInjury_argument1 :: "readings \<Rightarrow> argument_generated" where
  \<open>personalInjury_argument1 rd =
     \<lparr>agent = ''Legal Analyst'',
      content =
        ''After analyzing your argument, I can see you're establishing the property owner's duty of care despite contributory negligence. This is a strong foundation.\<newline>'' @
        ''\<newline>'' @
        ''Your argument correctly focuses on the property owner's independent duty to maintain safe premises. Under premises liability law, property owners have a non-delegable duty to keep their property reasonably safe for lawful visitors, regardless of the visitor's potential negligence.'',
      thinking =
        ''The user is dealing with a contributory/comparative negligence defense. I need to help them strengthen their premises liability argument while addressing the defendant's texting defense.'',
      timestamp = load_now1 rd\<rparr>\<close>

definition personalInjury_argument2 :: "readings \<Rightarrow> argument_generated" where
  \<open>personalInjury_argument2 rd =
     \<lparr>agent = ''Legal Strategist'',
      content =
        ''To strengthen your argument, consider these key points:\<newline>'' @
        ''\<newline>'' @
        ''1. **Separate Duties Doctrine**: Emphasize that the property owner's duty to maintain safe conditions exists independently of any contributory negligence by the plaintiff.\<newline>'' @
        ''\<newline>'' @
        ''2. **Foreseeability**: Argue that distracted pedestrians are foreseeable, and property owners must account for this reality when maintaining their premises.\<newline>'' @
        ''\<newline>'' @
        ''3. **Comparative Negligence**: Even if the plaintiff was partially at fault, in most jurisdictions this only reduces damages proportionally, not eliminate liability entirely.\<newline>'' @
        ''\<newline>'' @
        ''4. **Notice and Knowledge**: Focus on whether the property owner knew or should have known about the hazardous condition and failed to remedy it or provide adequate warning.'',
      thinking =
        ''Providing specific legal doctrines and strategic approaches to counter the contributory negligence defense.'',
      timestamp = load_now2 rd + 1000\<rparr>\<close>

definition personalInjury_feedback :: feedback_ready where
  \<open>personalInjury_feedback =
     \<lparr>recommendations =
        [''Gather evidence of how long the hazardous condition existed'',
         ''Document similar incidents or complaints about the same hazard'',
         ''Obtain expert testimony on property maintenance standards'',
         ''Research local precedents on comparative negligence in premises liability cases''],
      strengths =
        [''Correctly identifies the independent duty of property owners'',
         ''Understands that contributory negligence doesn't eliminate liability'',
         ''Focus on premises liability law is appropriate''],
      weaknesses =
        [''Need more specific case law citations'',
         ''Should address the degree of plaintiff's distraction'',
         ''Could strengthen causation argument between hazard and injury'']\<rparr>\<close>

definition nonCompete_turn1 :: debate_turn where
  \<open>nonCompete_turn1 =
     \<lparr>turn = 1,
      prosecutor_argument =
        ''Your Honor, the non-compete clause in question is a valid, negotiated agreement between sophisticated parties. The employee received valuable consideration including access to proprietary information, specialized training, and client relationships. \<newline>'' @
        ''\<newline>'' @
        ''The clause is narrowly tailored: it's limited to 12 months, covers only direct competitors, and applies solely within the specific geographic region where the company operates. This reasonable restriction protects legitimate business interests without unduly restraining trade.\<newline>'' @
        ''\<newline>'' @
        ''The employee cannot now claim ignorance or unfairness after benefiting from the company's investments in their development.'',
      prosecutor_thinking =
        ''Opening with contract validity and reasonable restrictions. Need to emphasize the exchange of value and narrow scope to counter California's strong anti-noncompete stance.'',
      defender_response =
        ''Your Honor, California Business and Professions Code Section 16600 is unequivocal: "Except as provided in this chapter, every contract by which anyone is restrained from engaging in a lawful profession, trade, or business of any kind is to that extent void."\<newline>'' @
        ''\<newline>'' @
        ''This statute reflects California's fundamental public policy favoring employee mobility and competition. The California Supreme Court in Edwards v. Arthur Andersen (2008) explicitly rejected the "narrow restraint" exception that other states recognize.\<newline>'' @
        ''\<newline>'' @
        ''No amount of consideration or claimed business interests can overcome California's statutory prohibition. The law protects not just the employee's right to work, but also promotes innovation and economic growth through free movement of talent.'',
      defender_thinking =
        ''Leading with the statutory prohibition and Supreme Court precedent. California law is clear and leaves little room for exceptions.''\<rparr>\<close>

definition nonCompete_turn2 :: debate_turn where
  \<open>nonCompete_turn2 =
     \<lparr>turn = 2,
      prosecutor_argument =
        ''Counsel misapplies Section 16600. The statute has recognized exceptions, particularly for trade secret protection and ownership interests. Our client isn't seeking to prevent all employment, merely protecting confidential information and customer relationships developed at significant expense.\<newline>'' @
        ''\<newline>'' @
        ''Furthermore, if the employment agreement contains a choice-of-law provision selecting another state's law, California courts have enforced such provisions when the employer has substantial contacts with that state. Application Group, Inc. v. Hunter Group established this principle.\<newline>'' @
        ''\<newline>'' @
        ''The employee acknowledged these restrictions and received substantial compensation accordingly. Allowing them to immediately join a competitor would constitute unjust enrichment.'',
      prosecutor_thinking =
        ''Pivoting to the trade secret exception and choice-of-law arguments. These are the narrow paths that might work even in California.'',
      defender_response =
        ''The trade secret exception is precisely that - an exception for trade secrets, not a backdoor for general non-compete agreements. California's Uniform Trade Secrets Act provides the exclusive remedy for trade secret misappropriation. The employer cannot use a non-compete clause to achieve what trade secret law specifically addresses.\<newline>'' @
        ''\<newline>'' @
        ''Regarding choice-of-law, the California Supreme Court in Whitewater West Industries v. Alleshouse held that California's prohibition on non-compete agreements reflects a fundamental public policy that cannot be circumvented through choice-of-law provisions when California has a material interest.\<newline>'' @
        ''\<newline>'' @
        ''The "unjust enrichment" argument fails because the employee earned their compensation through past services rendered. Future employment rights cannot be bargained away under California law, regardless of consideration.'',
      defender_thinking =
        ''Distinguishing trade secret law from non-compete enforcement and addressing the choice-of-law argument with recent California Supreme Court precedent.''\<rparr>\<close>

definition nonCompete_turn3 :: debate_turn where
  \<open>nonCompete_turn3 =
     \<lparr>turn = 3,
      prosecutor_argument =
        ''Even accepting California's strict approach, equitable remedies remain available. The doctrine of inevitable disclosure, while limited, can prevent an employee from taking a position where they would inevitably use or disclose trade secrets.\<newline>'' @
        ''\<newline>'' @
        ''Additionally, non-solicitation provisions targeting specific clients with whom the employee worked are more likely to survive scrutiny than broad non-compete clauses. We seek only to protect established client relationships, not to prevent competition entirely.\<newline>'' @
        ''\<newline>'' @
        ''The employee's bad faith is relevant here - evidence shows they downloaded client lists and proprietary data before resignation, suggesting intentional misappropriation rather than innocent job mobility.'',
      prosecutor_thinking =
        ''Final attempt focusing on narrower theories: inevitable disclosure and non-solicitation, plus introducing bad faith conduct to strengthen the equitable argument.'',
      defender_response =
        ''The "inevitable disclosure" doctrine has been largely rejected in California. In Schlage Lock v. Whyte, the court held that this doctrine cannot create an implied non-compete agreement where express agreements are void.\<newline>'' @
        ''\<newline>'' @
        ''Non-solicitation agreements face the same scrutiny under Section 16600 when they substantially restrict business operations. The California Supreme Court in Dowell v. Biosense Webster confirmed that even client-specific restrictions are void if they restrain business competition.\<newline>'' @
        ''\<newline>'' @
        ''As for the alleged bad faith conduct, if the employer has evidence of trade secret theft, they should pursue appropriate remedies under the Uniform Trade Secrets Act or criminal law, not attempt to enforce an illegal non-compete agreement. The validity of the contract clause stands independent of any alleged misconduct.\<newline>'' @
        ''\<newline>'' @
        ''California's policy is clear: promote innovation and competition through employee mobility. This court should void the non-compete clause as required by law.'',
      defender_thinking =
        ''Closing by dismantling each remaining argument and returning to California's fundamental policy. The law strongly favors my position.''\<rparr>\<close>

definition nonCompete_feedback :: feedback_ready where
  \<open>nonCompete_feedback =
     \<lparr>recommendations =
        [''Lawyer A should focus more on federal law preemption arguments if applicable'',
         ''Lawyer B could strengthen position with economic impact studies on non-compete agreements'',
         ''Both sides should address recent FTC proposed rules on non-compete agreements'',
         ''Consider alternative protective mechanisms like garden leave or retention bonuses''],
      strengths =
        [''Lawyer A: Creative arguments using choice-of-law and trade secret exceptions'',
         ''Lawyer B: Strong command of California statutory and case law'',
         ''Both: Well-structured arguments with appropriate legal citations''],
      weaknesses =
        [''Lawyer A: Fighting uphill battle against clear statutory prohibition'',
         ''Lawyer B: Could address more policy considerations'',
         ''Both: Limited discussion of practical business alternatives'']\<rparr>\<close>

definition default_argument :: "readings \<Rightarrow> argument_generated" where
  \<open>default_argument rd =
     \<lparr>agent = ''Legal Analyst'',
      content =
        ''I've analyzed your legal argument. While I cannot connect to the backend system currently, here's a general framework for strengthening your position:\<newline>'' @
        ''\<newline>'' @
        ''1. Establish the legal foundation with relevant statutes and case law\<newline>'' @
        ''2. Address potential counterarguments preemptively  \<newline>'' @
        ''3. Ensure your facts support each element of your legal theory\<newline>'' @
        ''4. Consider procedural requirements and deadlines'',
      thinking =
        ''Providing general legal analysis framework as fallback.'',
      timestamp = call_now rd\<rparr>\<close>

definition default_single_feedback :: feedback_ready where
  \<open>default_single_feedback =
     \<lparr>recommendations =
        [''Research relevant case law in your jurisdiction'',
         ''Strengthen factual support for key claims'',
         ''Consider alternative legal theories'',
         ''Prepare for likely counterarguments''],
      strengths =
        [''Clear legal theory'',
         ''Organized presentation''],
      weaknesses =
        [''Needs more specific case citations'',
         ''Could address more counterarguments'']\<rparr>\<close>

definition default_turn :: debate_turn where
  \<open>default_turn =
     \<lparr>turn = 1,
      prosecutor_argument =
        ''Opening argument establishing the primary legal position...'',
      prosecutor_thinking =
        ''Setting up the foundation of the argument.'',
      defender_response =
        ''Counter-argument addressing the key legal issues...'',
      defender_thinking =
        ''Identifying weaknesses in the opposing position.''\<rparr>\<close>

definition default_debate_feedback :: feedback_ready where
  \<open>default_debate_feedback =
     \<lparr>recommendations =
        [''Consider additional legal theories'',
         ''Strengthen factual support''],
      strengths =
        [''Clear arguments from both sides''],
      weaknesses =
        [''Could use more specific case law'']\<rparr>\<close>

datatype mode = Single | Debate

text \<open>
  The object \<^verbatim>\<open>getMockResponse\<close> returns has either an \<^verbatim>\<open>arguments\<close> or a \<^verbatim>\<open>turns\<close>
  array beside its \<^verbatim>\<open>feedback\<close>.
\<close>

datatype mock_data =
    SingleData "argument_generated list" feedback_ready
  | DebateData "debate_turn list" feedback_ready

definition getMockResponse :: "readings \<Rightarrow> mode \<Rightarrow> string \<Rightarrow> mock_data" where
  "getMockResponse rd md userInput =
     (let isPersonalInjury = (str_includes (toLowerCase userInput) ''personal injury'' \<or>
                              str_includes (toLowerCase userInput) ''texting while walking'');
          isNonCompete = (str_includes (toLowerCase userInput) ''non-compete'' \<or>
                          str_includes (toLowerCase userInput) ''california'')
      in if md = Single \<and> isPersonalInjury then
           SingleData [personalInjury_argument1 rd, personalInjury_argument2 rd]
             personalInjury_feedback
         else if md = Debate \<and> isNonCompete then
           DebateData [nonCompete_turn1, nonCompete_turn2, nonCompete_turn3] nonCompete_feedback
         else if md = Single then SingleData [default_argument rd] default_single_feedback
         else DebateData [default_turn] default_debate_feedback)"

text \<open>The state of the \<^verbatim>\<open>Home\<close> component: the hook it uses and its own \<^verbatim>\<open>useState\<close> cells.\<close>

record page = hook +
  workflowStarted :: bool
  useMockData :: bool
  mockArguments :: "argument_generated list"
  mockDebateTurns :: "debate_turn list"
  mockFeedback :: "feedback_ready option"

text \<open>
  How the two backend requests of \<^verbatim>\<open>handleStartWorkflow\<close> end: each \<^verbatim>\<open>fetch\<close> rejects, or
  answers with a status that is not \<^verbatim>\<open>ok\<close>, or answers \<^verbatim>\<open>ok\<close> with a body that
  \<^verbatim>\<open>response.json()\<close> rejects or accepts.
\<close>

datatype execute_result = ExecuteRejected | ExecuteNotOk | ExecuteBodyRejected | ExecuteOk

datatype create_result =
    CreateRejected | CreateNotOk | CreateBodyRejected | CreateOk json execute_result

text \<open>
  The \<^verbatim>\<open>try\<close> block: the exception it throws, if any. A failing execute request is only
  logged; everything else that goes wrong throws, including the read of
  \<^verbatim>\<open>data.workflow_id\<close> for the second URL.
\<close>

definition start_backend :: "create_result \<Rightarrow> page \<Rightarrow> exn option \<times> page" where
  "start_backend r p =
     (case r of
        CreateRejected \<Rightarrow> (Some NetworkError, p)
      | CreateNotOk \<Rightarrow> (Some RequestFailed, p)
      | CreateBodyRejected \<Rightarrow> (Some SyntaxError, p)
      | CreateOk data er \<Rightarrow>
          (case get_prop data ''workflow_id'' of
             Inl e \<Rightarrow> (Some e, p)
           | Inr v \<Rightarrow>
               (case concat_operand v of
                  Inl e \<Rightarrow> (Some e, p)
                | Inr _ \<Rightarrow>
                    (case er of
                       ExecuteRejected \<Rightarrow> (Some NetworkError, p)
                     | ExecuteNotOk \<Rightarrow>
                         (None, console_error_msg ''Failed to execute workflow'' None p)
                     | ExecuteBodyRejected \<Rightarrow> (Some SyntaxError, p)
                     | ExecuteOk \<Rightarrow> (None, p)))))"

text \<open>
  \<^verbatim>\<open>xs.forEach((x, index) => setTimeout(..., interval * (index + 1)))\<close>, and the feedback
  timer one interval after the last element.
\<close>

definition schedule_each ::
  "('a \<Rightarrow> page_action) \<Rightarrow> nat \<Rightarrow> 'a list \<Rightarrow> page \<Rightarrow> page" where
  "schedule_each act interval xs p =
     foldl (\<lambda>q (index, x). snd (setTimeout (act x) (interval * (index + 1)) q)) p (enumerate 0 xs)"

definition schedule_feedback :: "nat \<Rightarrow> nat \<Rightarrow> feedback_ready \<Rightarrow> page \<Rightarrow> page" where
  "schedule_feedback interval n fb p = snd (setTimeout (SetMockFeedback fb) (interval * (n + 1)) p)"

text \<open>
  The \<^verbatim>\<open>catch\<close> block: the fallback simulator. Reading \<^verbatim>\<open>arguments\<close> (or \<^verbatim>\<open>turns\<close>) off a
  scenario of the other shape would throw out of the block.
\<close>

definition simulate :: "readings \<Rightarrow> mode \<Rightarrow> string \<Rightarrow> page \<Rightarrow> exn + page" where
  "simulate rd md userInput p =
     (let p1 = p\<lparr>useMockData := True\<rparr>;
          mockData = getMockResponse rd md userInput
      in case md of
           Single \<Rightarrow>
             (case mockData of
                SingleData args fb \<Rightarrow>
                  Inr (schedule_feedback 1000 (length args) fb
                         (schedule_each PushMockArgument 1000 args p1))
              | DebateData _ _ \<Rightarrow> Inl TypeError)
         | Debate \<Rightarrow>
             (case mockData of
                DebateData turns fb \<Rightarrow>
                  Inr (schedule_feedback 2000 (length turns) fb
                         (schedule_each PushMockDebateTurn 2000 turns p1))
              | SingleData _ _ \<Rightarrow> Inl TypeError))"

definition handleStartWorkflow ::
  "readings \<Rightarrow> mode \<Rightarrow> string \<Rightarrow> create_result \<Rightarrow> page \<Rightarrow> exn + page" where
  "handleStartWorkflow rd md userInput r p =
     (if blank userInput then Inr p
      else (let p1 = p\<lparr>workflowStarted := True, useMockData := False, mockArguments := [],
                       mockDebateTurns := [], mockFeedback := None\<rparr>
            in case start_backend r p1 of
                 (None, p2) \<Rightarrow> Inr p2
               | (Some _, p2) \<Rightarrow> simulate rd md userInput p2))"

text \<open>
  A pending timer fires: it leaves the timer table and its callback runs. A handle that
  is not pending (cleared, or fired before) does nothing.
\<close>

definition fire_timer :: "nat \<Rightarrow> page \<Rightarrow> page" where
  "fire_timer h p =
     (case find (\<lambda>t. timer_id t = h) (timers p) of
        None \<Rightarrow> p
      | Some t \<Rightarrow>
          (let p1 = p\<lparr>timers := filter (\<lambda>t. timer_id t \<noteq> h) (timers p)\<rparr>
           in case action t of
                Reconnect wid \<Rightarrow> connect (Some wid) p1
              | PushMockArgument a \<Rightarrow> p1\<lparr>mockArguments := mockArguments p1 @ [a]\<rparr>
              | PushMockDebateTurn d \<Rightarrow> p1\<lparr>mockDebateTurns := mockDebateTurns p1 @ [d]\<rparr>
              | SetMockFeedback fb \<Rightarrow> p1\<lparr>mockFeedback := Some fb\<rparr>))"

text \<open>
  Tearing the page down runs the cleanups its effects registered. The only effect is the
  hook's; the page registers none for the simulator's timers.
\<close>

definition teardown :: "nat option \<Rightarrow> page \<Rightarrow> page" where
  "teardown captured p = cleanup captured p"

text \<open>A freshly mounted page, before any socket or timer exists.\<close>

definition initial_page :: page where
  "initial_page =
     \<lparr>timers = [], timers_created = 0, sockets = [], error_log = [],
      socket = None, isConnected = False, messages = [], workflowStatus = None,
      wsArguments = [], debateTurns = [], feedback = None, reconnectTimeoutRef = None,
      workflowStarted = False, useMockData = False, mockArguments = [],
      mockDebateTurns = [], mockFeedback = None\<rparr>"

definition initial_main :: main_app where
  "initial_main =
     \<lparr>timers = [], timers_created = 0, sockets = [], error_log = [], websocket = None\<rparr>"

definition sample_readings :: readings where
  "sample_readings = \<lparr>load_now1 = 5000, load_now2 = 5000, call_now = 9000\<rparr>"

text \<open>
  What can happen to a mounted page, one event at a time: its socket delivers an event,
  a timer fires, or the page is torn down (with the socket value its cleanup captured).
  \<open>wid\<close> is the workflow id the socket's handlers closed over.
\<close>

datatype page_event = SocketEvent ws_event | TimerFires nat | Unmount "nat option"

fun page_step :: "(string \<Rightarrow> json option) \<Rightarrow> string \<Rightarrow> page \<Rightarrow> page_event \<Rightarrow> page" where
  "page_step parse wid p (SocketEvent e) = ws_handle parse wid p e"
| "page_step parse wid p (TimerFires h) = fire_timer h p"
| "page_step parse wid p (Unmount captured) = teardown captured p"

text \<open>
  The notification page likewise: a socket event, or a timer firing, whose callback is
  \<^verbatim>\<open>initializeWebSocket\<close>.
\<close>

datatype main_step_event = MainSocketEvent main_event | MainTimerFires nat

fun main_step :: "main_app \<Rightarrow> main_step_event \<Rightarrow> main_app" where
  "main_step m (MainSocketEvent e) = main_handle m e"
| "main_step m (MainTimerFires h) =
     (case find (\<lambda>t. timer_id t = h) (timers m) of
        None \<Rightarrow> m
      | Some t \<Rightarrow> initializeWebSocket (m\<lparr>timers := filter (\<lambda>t. timer_id t \<noteq> h) (timers m)\<rparr>))"

text \<open>
  Two pages for the examples: one whose workflow socket is open, and one on which the
  create request was rejected and the fallback simulator has just started.
\<close>

definition open_page :: page where
  "open_page = ws_onopen (connect (Some ''demo-workflow-123'') initial_page)"

definition fallback_page :: page where
  "fallback_page =
     (case handleStartWorkflow sample_readings Single ''texting while walking'' CreateRejected
             initial_page of
        Inr p \<Rightarrow> p
      | Inl _ \<Rightarrow> initial_page)"

text \<open>
  Rounds of a connection that opens and then fails, the reconnection timer firing after
  each failure. \<open>h\<close> is the number of timers created before the first round, so the
  timer scheduled in a round has the next handle.
\<close>

fun failing_rounds :: "nat \<Rightarrow> nat \<Rightarrow> page_event list" where
  "failing_rounds h 0 = []"
| "failing_rounds h (Suc n) =
     [SocketEvent Opened, SocketEvent Errored, SocketEvent Closed, TimerFires (Suc h)] @
     failing_rounds (Suc h) n"

fun main_failing_rounds :: "nat \<Rightarrow> nat \<Rightarrow> main_step_event list" where
  "main_failing_rounds h 0 = []"
| "main_failing_rounds h (Suc n) =
     [MainSocketEvent MainOpened, MainSocketEvent MainErrored, MainSocketEvent MainClosed,
      MainTimerFires (Suc h)] @
     main_failing_rounds (Suc h) n"




section \<open>Properties of the stream accumulator\<close>

subsection \<open>Lines, chunks and the console\<close>

lemma process_line_unmarked:
  "\<not> startsWith l ''data: '' \<Longrightarrow> process_line ev st l = st"
  by (simp add: process_line_def)

lemma read_loop_lines:
  "read_loop ev st chunks = foldl (process_line ev) st (concat (map split_nl chunks))"
  unfolding read_loop_def
  by (induction chunks arbitrary: st) (simp_all add: process_chunk_def)

lemma process_lines_marked:
  "foldl (process_line ev) st ls =
   foldl (process_line ev) st (filter (\<lambda>l. startsWith l ''data: '') ls)"
  by (induction ls arbitrary: st) (simp_all add: process_line_unmarked)

text \<open>Nothing below \<open>process_line\<close> reads or writes the console log.\<close>

lemma addAssistantMessage_console:
  "addAssistantMessage ev c b (w\<lparr>console := k\<rparr>) =
     (fst (addAssistantMessage ev c b w), (snd (addAssistantMessage ev c b w))\<lparr>console := k\<rparr>)"
  by (simp add: addAssistantMessage_def Date_now_def appendMessage_def Let_def split: option.splits)

lemma updateStreamingMessage_console:
  "updateStreamingMessage ev i c (w\<lparr>console := k\<rparr>) =
     (updateStreamingMessage ev i c w)\<lparr>console := k\<rparr>"
  by (simp add: updateStreamingMessage_def getElementById_def split: option.splits)

lemma finalizeStreamingMessage_console:
  "finalizeStreamingMessage i (w\<lparr>console := k\<rparr>) =
     (fst (finalizeStreamingMessage i w), (snd (finalizeStreamingMessage i w))\<lparr>console := k\<rparr>)"
  by (simp add: finalizeStreamingMessage_def getElementById_def Let_def split: option.splits)

lemma called_console: "called c (w\<lparr>console := k\<rparr>) = (called c w)\<lparr>console := k\<rparr>"
  by (simp add: called_def)

lemma handle_data_console:
  "handle_data ev d (ss, w\<lparr>console := k\<rparr>) =
     (case handle_data ev d (ss, w) of (r, ss', w') \<Rightarrow> (r, ss', w'\<lparr>console := k\<rparr>))"
  by (simp add: handle_data_def Let_def addAssistantMessage_console updateStreamingMessage_console
        finalizeStreamingMessage_console called_console
      split: sum.splits option.splits prod.splits)

lemma without_console_eqD:
  "without_console w = without_console w' \<Longrightarrow> w' = w\<lparr>console := console w'\<rparr>"
  by (cases w, cases w') (simp add: without_console_def)

lemma process_line_console:
  "fst (process_line ev (ss, w\<lparr>console := k\<rparr>) l) = fst (process_line ev (ss, w) l) \<and>
   without_console (snd (process_line ev (ss, w\<lparr>console := k\<rparr>) l)) =
   without_console (snd (process_line ev (ss, w) l))"
  by (simp add: process_line_def handle_data_console console_error_def without_console_def
      split: option.splits prod.splits)

lemma process_line_cong:
  assumes "without_console w = without_console w'"
  shows "fst (process_line ev (ss, w') l) = fst (process_line ev (ss, w) l) \<and>
         without_console (snd (process_line ev (ss, w') l)) =
         without_console (snd (process_line ev (ss, w) l))"
proof -
  from assms have "w' = w\<lparr>console := console w'\<rparr>" by (rule without_console_eqD)
  then show ?thesis
    using process_line_console [where ev=ev and ss=ss and w=w and k="console w'" and l=l]
    by simp
qed

lemma process_lines_cong:
  "without_console w = without_console w' \<Longrightarrow>
   fst (foldl (process_line ev) (ss, w') ls) = fst (foldl (process_line ev) (ss, w) ls) \<and>
   without_console (snd (foldl (process_line ev) (ss, w') ls)) =
   without_console (snd (foldl (process_line ev) (ss, w) ls))"
proof (induction ls arbitrary: ss w w')
  case Nil
  then show ?case by simp
next
  case (Cons l ls)
  obtain s1 w1 where r1: "process_line ev (ss, w) l = (s1, w1)"
    by (cases "process_line ev (ss, w) l")
  obtain s2 w2 where r2: "process_line ev (ss, w') l = (s2, w2)"
    by (cases "process_line ev (ss, w') l")
  from process_line_cong [OF Cons.prems, of ev ss l] r1 r2
  have "s2 = s1" and "without_console w1 = without_console w2" by simp_all
  with Cons.IH [of w1 w2 s1] r1 r2 show ?case by simp
qed

lemma malformed_step:
  assumes "\<not> startsWith bad ''data: '' \<or> json_parse ev (drop 6 bad) = None"
  shows "fst (process_line ev (ss, w) bad) = ss"
    and "without_console (snd (process_line ev (ss, w) bad)) = without_console w"
  using assms by (auto simp: process_line_def console_error_def without_console_def)

subsection \<open>Malformed lines\<close>

text \<open>
  C9. A malformed line is a line without the \<^verbatim>\<open>data: \<close> marker or a marked line whose
  payload \<^verbatim>\<open>JSON.parse\<close> rejects. Such a line leaves the session (accumulated text and
  message id) as it was and changes nothing on the page but the console log; the lines
  after it are processed as if it had not been there, up to that log; and the read loop
  of an accepted response whose body ends normally returns a session, whatever the chunks
  contain: no exception leaves it.
\<close>

theorem malformed_line_skipped:
  assumes "\<not> startsWith bad ''data: '' \<or> json_parse ev (drop 6 bad) = None"
  shows "fst (process_line ev (ss, w) bad) = ss
       \<and> without_console (snd (process_line ev (ss, w) bad)) = without_console w
       \<and> fst (foldl (process_line ev) (ss, w) (bad # ls)) =
           fst (foldl (process_line ev) (ss, w) ls)
       \<and> without_console (snd (foldl (process_line ev) (ss, w) (bad # ls))) =
           without_console (snd (foldl (process_line ev) (ss, w) ls))
       \<and> (\<exists>ss'. fst (sendStreamingMessage ev (Response True chunks Done) w') = Inr ss')"
proof -
  obtain s1 w1 where r: "process_line ev (ss, w) bad = (s1, w1)"
    by (cases "process_line ev (ss, w) bad")
  from malformed_step [OF assms, of ss w] r
  have s1: "s1 = ss" and w1: "without_console w = without_console w1"
    by simp_all
  have "\<exists>ss'. fst (sendStreamingMessage ev (Response True chunks Done) w') = Inr ss'"
    by (simp add: split_beta Let_def)
  with process_lines_cong [OF w1, of ev ss ls] r s1 w1 show ?thesis by simp
qed

theorem malformed_line_skipped_witness:
  \<open>startsWith ''data: not json'' ''data: ''
   \<and> json_parse sample_env (drop 6 ''data: not json'') = None
   \<and> fst (process_line sample_env (new_session, sample_world) ''data: not json'') = new_session
   \<and> accumulatedContent
        (fst (foldl (process_line sample_env) (new_session, sample_world)
                [''data: not json'', ''data: {"type":"content","content":"Hel"}''])) = ''Hel''\<close>
proof -
  have bad: "\<not> startsWith ''data: not json'' ''data: '' \<or>
             json_parse sample_env (drop 6 ''data: not json'') = None"
    by (simp add: sample_env_def sample_parse_def)
  have run: \<open>accumulatedContent
               (fst (foldl (process_line sample_env) (new_session, sample_world)
                       [''data: {"type":"content","content":"Hel"}''])) = ''Hel''\<close>
    by (simp add: process_line_def handle_data_def startsWith_def sample_env_def
          sample_parse_def concat_operand_def new_session_def addAssistantMessage_def
          Date_now_def appendMessage_def sample_world_def Let_def)
  have marked: "startsWith ''data: not json'' ''data: ''"
    and unparsed: "json_parse sample_env (drop 6 ''data: not json'') = None"
    by (simp_all add: startsWith_def sample_env_def sample_parse_def)
  from malformed_line_skipped [OF bad, of new_session sample_world
      \<open>[''data: {"type":"content","content":"Hel"}'']\<close>] marked unparsed run
  show ?thesis by simp
qed

subsection \<open>Concatenation of content chunks\<close>

lemma content_line_delta: "content_line ev l c \<longleftrightarrow> content_delta ev l = Some c"
  by (auto simp: content_line_def content_delta_def typed_content_def
      split: option.splits sum.splits json.splits)

lemma content_delta_appends: "content_delta ev l = Some c \<Longrightarrow> append_operand ev l = Some c"
  by (auto simp: content_delta_def append_operand_def concat_operand_def
      split: option.splits sum.splits json.splits if_splits)

lemma untyped_appends_nothing: "\<not> typed_content ev l \<Longrightarrow> append_operand ev l = None"
  by (simp add: append_operand_def)

lemma map_id_update_first:
  "(\<And>x. g (f x) = g x) \<Longrightarrow> map g (update_first P f xs) = map g xs"
  by (induction xs) simp_all

lemma updateStreamingMessage_frame:
  "has_chatMessages (updateStreamingMessage ev i c w) = has_chatMessages w"
  "clock (updateStreamingMessage ev i c w) = clock w"
  "clock_reads (updateStreamingMessage ev i c w) = clock_reads w"
  "ChatState_messages (updateStreamingMessage ev i c w) = ChatState_messages w"
  "console (updateStreamingMessage ev i c w) = console w"
  "map el_id (document (updateStreamingMessage ev i c w)) = map el_id (document w)"
  by (auto simp: updateStreamingMessage_def map_id_update_first split: option.splits)

lemma finalizeStreamingMessage_frame:
  "has_chatMessages (snd (finalizeStreamingMessage i w)) = has_chatMessages w"
  "clock (snd (finalizeStreamingMessage i w)) = clock w"
  "clock_reads (snd (finalizeStreamingMessage i w)) = clock_reads w"
  "console (snd (finalizeStreamingMessage i w)) = console w"
  "map el_id (document (snd (finalizeStreamingMessage i w))) = map el_id (document w)"
  "map_option (map msg_id) (ChatState_messages (snd (finalizeStreamingMessage i w))) =
     map_option (map msg_id) (ChatState_messages w)"
  by (auto simp: finalizeStreamingMessage_def Let_def map_id_update_first split: option.splits)

lemma called_frame:
  "has_chatMessages (called c w) = has_chatMessages w"
  "clock (called c w) = clock w"
  "clock_reads (called c w) = clock_reads w"
  "console (called c w) = console w"
  "document (called c w) = document w"
  "ChatState_messages (called c w) = ChatState_messages w"
  "ui_calls (called c w) = ui_calls w @ [c]"
  by (simp_all add: called_def)

lemma console_error_frame:
  "has_chatMessages (console_error e w) = has_chatMessages w"
  "clock (console_error e w) = clock w"
  "clock_reads (console_error e w) = clock_reads w"
  "document (console_error e w) = document w"
  "ChatState_messages (console_error e w) = ChatState_messages w"
  "ui_calls (console_error e w) = ui_calls w"
  "console (console_error e w) = console w @ [e]"
  by (simp_all add: console_error_def)

lemma process_line_append_known:
  assumes "append_operand ev l = Some s" and "assistantMessageId ss = Some i"
  shows "process_line ev (ss, w) l =
           (ss\<lparr>accumulatedContent := accumulatedContent ss @ s\<rparr>,
            updateStreamingMessage ev i (accumulatedContent ss @ s)
              (called (UpdateStreamingMessage i (accumulatedContent ss @ s)) w))"
  using assms
  by (auto simp: append_operand_def typed_content_def process_line_def handle_data_def
      split: option.splits sum.splits if_splits)

lemma process_line_append_first:
  assumes "append_operand ev l = Some s" and "assistantMessageId ss = None"
  shows "process_line ev (ss, w) l =
           (case addAssistantMessage ev [] True w of
              (Inl e, w1) \<Rightarrow>
                (ss\<lparr>accumulatedContent := accumulatedContent ss @ s\<rparr>, console_error e w1)
            | (Inr i, w1) \<Rightarrow>
                (ss\<lparr>accumulatedContent := accumulatedContent ss @ s, assistantMessageId := Some i\<rparr>,
                 updateStreamingMessage ev i (accumulatedContent ss @ s)
                   (called (UpdateStreamingMessage i (accumulatedContent ss @ s)) w1)))"
  using assms
  by (auto simp: append_operand_def typed_content_def process_line_def handle_data_def
      split: option.splits sum.splits if_splits prod.splits)

lemma without_console_frame:
  assumes "without_console w' = without_console v"
  shows "has_chatMessages w' = has_chatMessages v" and "clock w' = clock v"
    and "clock_reads w' = clock_reads v" and "document w' = document v"
    and "ChatState_messages w' = ChatState_messages v" and "ui_calls w' = ui_calls v"
proof -
  have p: "has_chatMessages (without_console x) = has_chatMessages x"
    "clock (without_console x) = clock x" "clock_reads (without_console x) = clock_reads x"
    "document (without_console x) = document x"
    "ChatState_messages (without_console x) = ChatState_messages x"
    "ui_calls (without_console x) = ui_calls x" for x
    by (simp_all add: without_console_def)
  from assms p(1) [of w'] p(1) [of v] show "has_chatMessages w' = has_chatMessages v" by simp
  from assms p(2) [of w'] p(2) [of v] show "clock w' = clock v" by simp
  from assms p(3) [of w'] p(3) [of v] show "clock_reads w' = clock_reads v" by simp
  from assms p(4) [of w'] p(4) [of v] show "document w' = document v" by simp
  from assms p(5) [of w'] p(5) [of v] show "ChatState_messages w' = ChatState_messages v" by simp
  from assms p(6) [of w'] p(6) [of v] show "ui_calls w' = ui_calls v" by simp
qed

lemma without_console_error [simp]:
  "without_console (console_error e w) = without_console w"
  by (simp add: without_console_def console_error_def)

text \<open>What a line that appends nothing does to the page, up to the console.\<close>

lemma process_line_other_cases:
  assumes "append_operand ev l = None"
  shows "fst (process_line ev (ss, w) l) = ss \<and>
         (without_console (snd (process_line ev (ss, w) l)) = without_console w
          \<or> (\<exists>a. without_console (snd (process_line ev (ss, w) l)) =
                    without_console (called (UpdateAnalysisPanel a) w))
          \<or> without_console (snd (process_line ev (ss, w) l)) =
                without_console (snd (finalizeStreamingMessage (assistantMessageId ss)
                   (called (FinalizeStreamingMessage (assistantMessageId ss)) w))))"
proof (cases "startsWith l ''data: ''")
  case False
  then show ?thesis by (simp add: process_line_def)
next
  case marked: True
  show ?thesis
  proof (cases "json_parse ev (drop 6 l)")
    case None
    with marked show ?thesis by (simp add: process_line_def)
  next
    case (Some d)
    show ?thesis
    proof (cases "get_prop d ''type''")
      case (Inl e)
      with marked Some show ?thesis by (simp add: process_line_def handle_data_def)
    next
      case (Inr ty)
      consider (content) "ty = Some (JStr ''content'')"
        | (analysis) "ty = Some (JStr ''analysis'')"
        | (complete) "ty = Some (JStr ''complete'')"
        | (other) "ty \<noteq> Some (JStr ''content'')" "ty \<noteq> Some (JStr ''analysis'')"
            "ty \<noteq> Some (JStr ''complete'')"
        by blast
      then show ?thesis
      proof cases
        case content
        with assms marked Some Inr
        obtain e where "concat_operand (case get_prop d ''content'' of Inr v \<Rightarrow> v | Inl _ \<Rightarrow> None) = Inl e"
          by (auto simp: append_operand_def typed_content_def split: sum.splits)
        with marked Some Inr content show ?thesis
          by (simp add: process_line_def handle_data_def)
      next
        case analysis
        with marked Some Inr show ?thesis
          by (auto simp: process_line_def handle_data_def Let_def)
      next
        case complete
        obtain r w1 where f: "finalizeStreamingMessage (assistantMessageId ss)
                   (called (FinalizeStreamingMessage (assistantMessageId ss)) w) = (r, w1)"
          by (cases "finalizeStreamingMessage (assistantMessageId ss)
                   (called (FinalizeStreamingMessage (assistantMessageId ss)) w)")
        with marked Some Inr complete show ?thesis
          by (cases r) (simp_all add: process_line_def handle_data_def)
      next
        case other
        with marked Some Inr show ?thesis
          by (simp add: process_line_def handle_data_def)
      qed
    qed
  qed
qed

lemma ui_calls_finalizeStreamingMessage [simp]:
  "ui_calls (snd (finalizeStreamingMessage i w)) = ui_calls w"
  by (simp add: finalizeStreamingMessage_def Let_def split: option.splits)


lemma updates_called [simp]:
  "updates (called c w) = updates w @ (if is_update c then [c] else [])"
  by (simp add: updates_def called_def)

lemma process_line_other:
  assumes "append_operand ev l = None"
  shows "fst (process_line ev (ss, w) l) = ss"
    and "has_chatMessages (snd (process_line ev (ss, w) l)) = has_chatMessages w"
    and "clock (snd (process_line ev (ss, w) l)) = clock w"
    and "clock_reads (snd (process_line ev (ss, w) l)) = clock_reads w"
    and "map el_id (document (snd (process_line ev (ss, w) l))) = map el_id (document w)"
    and "map_option (map msg_id) (ChatState_messages (snd (process_line ev (ss, w) l))) =
           map_option (map msg_id) (ChatState_messages w)"
    and "updates (snd (process_line ev (ss, w) l)) = updates w"
proof -
  let ?w' = "snd (process_line ev (ss, w) l)"
  let ?f = "snd (finalizeStreamingMessage (assistantMessageId ss)
                   (called (FinalizeStreamingMessage (assistantMessageId ss)) w))"
  note c = process_line_other_cases [OF assms, of ss w]
  from c show "fst (process_line ev (ss, w) l) = ss" by simp
  from c consider (same) "without_console ?w' = without_console w"
    | (analysis) a where "without_console ?w' = without_console (called (UpdateAnalysisPanel a) w)"
    | (complete) "without_console ?w' = without_console ?f"
    by blast
  then have "has_chatMessages ?w' = has_chatMessages w \<and> clock ?w' = clock w
      \<and> clock_reads ?w' = clock_reads w
      \<and> map el_id (document ?w') = map el_id (document w)
      \<and> map_option (map msg_id) (ChatState_messages ?w') =
           map_option (map msg_id) (ChatState_messages w)
      \<and> updates ?w' = updates w"
  proof cases
    case same
    from without_console_frame [OF same] show ?thesis by (simp add: updates_def)
  next
    case analysis
    from without_console_frame [OF analysis] show ?thesis
      by (simp add: updates_def called_frame)
  next
    case complete
    from without_console_frame [OF complete] show ?thesis
      by (simp add: updates_def finalizeStreamingMessage_frame called_frame
            ui_calls_finalizeStreamingMessage)
  qed
  then show "has_chatMessages ?w' = has_chatMessages w" and "clock ?w' = clock w"
    and "clock_reads ?w' = clock_reads w"
    and "map el_id (document ?w') = map el_id (document w)"
    and "map_option (map msg_id) (ChatState_messages ?w') =
           map_option (map msg_id) (ChatState_messages w)"
    and "updates ?w' = updates w"
    by simp_all
qed

text \<open>
  The accumulated text grows by the operand of each line that appends, whatever else the
  line does or fails to do.
\<close>

lemma process_line_text:
  "accumulatedContent (fst (process_line ev (ss, w) l)) =
     accumulatedContent ss @ (case append_operand ev l of None \<Rightarrow> [] | Some s \<Rightarrow> s)"
proof (cases "append_operand ev l")
  case None
  with process_line_other(1) [OF None, of ss w] show ?thesis by simp
next
  case (Some s)
  show ?thesis
  proof (cases "assistantMessageId ss")
    case None
    from process_line_append_first [OF Some None, of w] Some show ?thesis
      by (simp split: prod.splits sum.splits)
  next
    case (Some i)
    from process_line_append_known [OF \<open>append_operand ev l = Some s\<close> Some, of w]
      \<open>append_operand ev l = Some s\<close> show ?thesis by simp
  qed
qed

lemma process_lines_text:
  "accumulatedContent (fst (foldl (process_line ev) (ss, w) ls)) =
     accumulatedContent ss @ concat (List.map_filter (append_operand ev) ls)"
proof (induction ls arbitrary: ss w)
  case Nil
  then show ?case by simp
next
  case (Cons l ls)
  obtain s1 w1 where r: "process_line ev (ss, w) l = (s1, w1)"
    by (cases "process_line ev (ss, w) l")
  from process_line_text [of ev ss w l] r
  have "accumulatedContent s1 =
          accumulatedContent ss @ (case append_operand ev l of None \<Rightarrow> [] | Some s \<Rightarrow> s)"
    by simp
  with Cons.IH [of s1 w1] r show ?case
    by (simp split: option.splits)
qed

lemma valid_deltas:
  "\<forall>l \<in> set ls. typed_content ev l \<longrightarrow> content_delta ev l \<noteq> None \<Longrightarrow>
   List.map_filter (append_operand ev) ls = deltas ev ls"
proof (induction ls)
  case Nil
  then show ?case by simp
next
  case (Cons l ls)
  show ?case
  proof (cases "content_delta ev l")
    case None
    with Cons.prems have "\<not> typed_content ev l" by auto
    then have "append_operand ev l = None" by (rule untyped_appends_nothing)
    with None Cons show ?thesis by simp
  next
    case (Some c)
    then have "append_operand ev l = Some c" by (rule content_delta_appends)
    with Some Cons show ?thesis by simp
  qed
qed

text \<open>
  Without the store \<^verbatim>\<open>addAssistantMessage\<close> throws at its \<^verbatim>\<open>push\<close>, after it has appended
  the element: the session never gets a message id and \<^verbatim>\<open>updateStreamingMessage\<close> is never
  called.
\<close>

lemma addAssistantMessage_no_store:
  assumes "ChatState_messages w = None"
  shows "fst (addAssistantMessage ev c b w) = Inl TypeError"
    and "ChatState_messages (snd (addAssistantMessage ev c b w)) = None"
    and "ui_calls (snd (addAssistantMessage ev c b w)) = ui_calls w"
  using assms
  by (simp_all add: addAssistantMessage_def Date_now_def appendMessage_def Let_def)

lemma process_line_no_store:
  assumes "ChatState_messages w = None" and "assistantMessageId ss = None"
  shows "assistantMessageId (fst (process_line ev (ss, w) l)) = None"
    and "ChatState_messages (snd (process_line ev (ss, w) l)) = None"
    and "updates (snd (process_line ev (ss, w) l)) = updates w"
proof -
  have "assistantMessageId (fst (process_line ev (ss, w) l)) = None
      \<and> ChatState_messages (snd (process_line ev (ss, w) l)) = None
      \<and> updates (snd (process_line ev (ss, w) l)) = updates w"
  proof (cases "append_operand ev l")
    case None
    from process_line_other(1,6,7) [OF None, of ss w] assms show ?thesis by simp
  next
    case (Some s)
    obtain r w1 where a: "addAssistantMessage ev [] True w = (r, w1)"
      by (cases "addAssistantMessage ev [] True w")
    from addAssistantMessage_no_store [OF assms(1), of ev "[]" True] a
    have "r = Inl TypeError" and "ChatState_messages w1 = None" and "ui_calls w1 = ui_calls w"
      by simp_all
    with process_line_append_first [OF Some assms(2), of w] a assms(2) show ?thesis
      by (simp add: console_error_frame updates_def)
  qed
  then show "assistantMessageId (fst (process_line ev (ss, w) l)) = None"
    and "ChatState_messages (snd (process_line ev (ss, w) l)) = None"
    and "updates (snd (process_line ev (ss, w) l)) = updates w"
    by simp_all
qed

lemma process_lines_no_store:
  "ChatState_messages w = None \<Longrightarrow> assistantMessageId ss = None \<Longrightarrow>
   assistantMessageId (fst (foldl (process_line ev) (ss, w) ls)) = None \<and>
   ChatState_messages (snd (foldl (process_line ev) (ss, w) ls)) = None \<and>
   updates (snd (foldl (process_line ev) (ss, w) ls)) = updates w"
proof (induction ls arbitrary: ss w)
  case Nil
  then show ?case by simp
next
  case (Cons l ls)
  obtain s1 w1 where r: "process_line ev (ss, w) l = (s1, w1)"
    by (cases "process_line ev (ss, w) l")
  from process_line_no_store [OF Cons.prems, of ev l] r
  have "assistantMessageId s1 = None" and "ChatState_messages w1 = None"
    and "updates w1 = updates w" by simp_all
  with Cons.IH [of w1 s1] r show ?case by simp
qed

text \<open>
  With the store, the first line that appends creates the message and every line that
  appends is followed by one call of \<^verbatim>\<open>updateStreamingMessage\<close> for it.
\<close>

lemma ui_calls_updateStreamingMessage [simp]:
  "ui_calls (updateStreamingMessage ev i c w) = ui_calls w"
  by (simp add: updateStreamingMessage_def split: option.splits)

lemma updates_updateStreamingMessage [simp]:
  "updates (updateStreamingMessage ev i c w) = updates w"
  by (simp add: updates_def)

lemma process_line_known:
  assumes "assistantMessageId ss = Some i"
  shows "assistantMessageId (fst (process_line ev (ss, w) l)) = Some i"
    and "updates (snd (process_line ev (ss, w) l)) =
           updates w @ (case append_operand ev l of
                          None \<Rightarrow> []
                        | Some s \<Rightarrow> [UpdateStreamingMessage i (accumulatedContent ss @ s)])"
proof -
  have "assistantMessageId (fst (process_line ev (ss, w) l)) = Some i
      \<and> updates (snd (process_line ev (ss, w) l)) =
           updates w @ (case append_operand ev l of
                          None \<Rightarrow> []
                        | Some s \<Rightarrow> [UpdateStreamingMessage i (accumulatedContent ss @ s)])"
  proof (cases "append_operand ev l")
    case None
    from process_line_other(1,7) [OF None, of ss w] None assms show ?thesis by simp
  next
    case (Some s)
    from process_line_append_known [OF Some assms, of w] Some assms show ?thesis by simp
  qed
  then show "assistantMessageId (fst (process_line ev (ss, w) l)) = Some i"
    and "updates (snd (process_line ev (ss, w) l)) =
           updates w @ (case append_operand ev l of
                          None \<Rightarrow> []
                        | Some s \<Rightarrow> [UpdateStreamingMessage i (accumulatedContent ss @ s)])"
    by simp_all
qed

lemma process_lines_known:
  "assistantMessageId ss = Some i \<Longrightarrow>
   assistantMessageId (fst (foldl (process_line ev) (ss, w) ls)) = Some i \<and>
   updates (snd (foldl (process_line ev) (ss, w) ls)) =
     updates w @ map (UpdateStreamingMessage i)
                   (running (accumulatedContent ss) (List.map_filter (append_operand ev) ls))"
proof (induction ls arbitrary: ss w)
  case Nil
  then show ?case by simp
next
  case (Cons l ls)
  obtain s1 w1 where r: "process_line ev (ss, w) l = (s1, w1)"
    by (cases "process_line ev (ss, w) l")
  from process_line_known [OF Cons.prems, of ev w l] r
  have i1: "assistantMessageId s1 = Some i"
    and u1: "updates w1 =
           updates w @ (case append_operand ev l of
                          None \<Rightarrow> []
                        | Some s \<Rightarrow> [UpdateStreamingMessage i (accumulatedContent ss @ s)])"
    by simp_all
  from process_line_text [of ev ss w l] r
  have a1: "accumulatedContent s1 =
          accumulatedContent ss @ (case append_operand ev l of None \<Rightarrow> [] | Some s \<Rightarrow> s)"
    by simp
  from Cons.IH [OF i1, of w1] r u1 a1 show ?case
    by (simp split: option.splits)
qed

lemma addAssistantMessage_store:
  assumes "ChatState_messages w = Some ms"
  shows "fst (addAssistantMessage ev c b w) = Inr (''msg_'' @ dec (clock w (clock_reads w)))"
    and "ui_calls (snd (addAssistantMessage ev c b w)) = ui_calls w"
    and "has_chatMessages (snd (addAssistantMessage ev c b w)) = has_chatMessages w"
    and "ChatState_messages (snd (addAssistantMessage ev c b w)) =
           Some (ms @ [\<lparr>msg_id = ''msg_'' @ dec (clock w (clock_reads w)), msg_type = ''assistant'',
                         msg_content = c, msg_isStreaming = Some b\<rparr>])"
    and "has_chatMessages w \<Longrightarrow> document (snd (addAssistantMessage ev c b w)) =
           document w @ [(createMessageElement ev c)
                           \<lparr>el_id := ''msg_'' @ dec (clock w (clock_reads w)), el_streaming := b\<rparr>]"
  using assms
  by (simp_all add: addAssistantMessage_def Date_now_def appendMessage_def Let_def)

lemma process_lines_first:
  "assistantMessageId ss = None \<Longrightarrow> ChatState_messages w = Some ms \<Longrightarrow>
   updates (snd (foldl (process_line ev) (ss, w) ls)) =
     updates w @ map (UpdateStreamingMessage (''msg_'' @ dec (clock w (clock_reads w))))
                   (running (accumulatedContent ss) (List.map_filter (append_operand ev) ls))"
proof (induction ls arbitrary: ss w ms)
  case Nil
  then show ?case by simp
next
  case (Cons l ls)
  obtain s1 w1 where r: "process_line ev (ss, w) l = (s1, w1)"
    by (cases "process_line ev (ss, w) l")
  show ?case
  proof (cases "append_operand ev l")
    case None
    from process_line_other [OF None, of ss w] r Cons.prems
    have s1: "s1 = ss" and c1: "clock w1 = clock w" "clock_reads w1 = clock_reads w"
      and u1: "updates w1 = updates w"
      and "map_option (map msg_id) (ChatState_messages w1) = Some (map msg_id ms)"
      by simp_all
    then obtain ms1 where "ChatState_messages w1 = Some ms1" by auto
    from Cons.IH [OF _ this, of s1] s1 Cons.prems(1) r c1 u1 None show ?thesis by simp
  next
    case (Some s)
    let ?i = "''msg_'' @ dec (clock w (clock_reads w))"
    obtain x w0 where a: "addAssistantMessage ev [] True w = (x, w0)"
      by (cases "addAssistantMessage ev [] True w")
    from addAssistantMessage_store(1,2) [OF Cons.prems(2), of ev "[]" True] a
    have x: "x = Inr ?i" and u0: "ui_calls w0 = ui_calls w" by simp_all
    from process_line_append_first [OF Some Cons.prems(1), of w] a x r
    have s1: "s1 = ss\<lparr>accumulatedContent := accumulatedContent ss @ s,
                          assistantMessageId := Some ?i\<rparr>"
      and w1: "w1 = updateStreamingMessage ev ?i (accumulatedContent ss @ s)
                      (called (UpdateStreamingMessage ?i (accumulatedContent ss @ s)) w0)"
      by simp_all
    from w1 u0 have u1: "updates w1 = updates w @ [UpdateStreamingMessage ?i (accumulatedContent ss @ s)]"
      by (simp add: updates_def called_def)
    from s1 have i1: "assistantMessageId s1 = Some ?i"
      and a1: "accumulatedContent s1 = accumulatedContent ss @ s" by simp_all
    from process_lines_known [OF i1, of ev w1 ls] r u1 a1 Some show ?thesis by simp
  qed
qed

lemma read_loop_lines_of:
  "read_loop ev st chunks = foldl (process_line ev) st (lines_of chunks)"
  unfolding read_loop_def lines_of_def
  by (induction chunks arbitrary: st) (simp_all add: process_chunk_def)


text \<open>
  C1. Take any response body whose chunks of type \<^verbatim>\<open>content\<close> are valid (each carries a
  string), with whatever other lines between them: \<^verbatim>\<open>analysis\<close> and \<^verbatim>\<open>complete\<close> chunks,
  malformed and unmarked lines. On every page the accumulated text after the loop is the
  concatenation of the deltas in arrival order. On a page whose \<^verbatim>\<open>ChatState.messages\<close>
  is an array the loop calls \<^verbatim>\<open>updateStreamingMessage\<close> once after each content chunk,
  with the text accumulated so far, always for the message created at the first chunk.
  On a page whose \<^verbatim>\<open>ChatState.messages\<close> is \<^verbatim>\<open>undefined\<close>, which is how \<^verbatim>\<open>chat.js\<close> creates
  \<^verbatim>\<open>ChatState\<close>, the loop never calls \<^verbatim>\<open>updateStreamingMessage\<close> and the session never
  gets a message: every content chunk ends in the \<^verbatim>\<open>TypeError\<close> of
  \<^verbatim>\<open>ChatState.messages.push\<close>, which the loop catches and logs.
\<close>

theorem content_chunks_concatenated:
  assumes valid: "\<forall>l \<in> set (lines_of chunks). typed_content ev l \<longrightarrow> content_delta ev l \<noteq> None"
  shows "accumulatedContent (fst (read_loop ev (new_session, w) chunks)) =
           concat (deltas ev (lines_of chunks))
       \<and> (ChatState_messages w \<noteq> None \<longrightarrow>
            updates (snd (read_loop ev (new_session, w) chunks)) =
              updates w @ map (UpdateStreamingMessage (''msg_'' @ dec (clock w (clock_reads w))))
                            (running [] (deltas ev (lines_of chunks))))
       \<and> (ChatState_messages w = None \<longrightarrow>
            updates (snd (read_loop ev (new_session, w) chunks)) = updates w \<and>
            assistantMessageId (fst (read_loop ev (new_session, w) chunks)) = None)"
proof -
  have none: "assistantMessageId new_session = None" and empty: "accumulatedContent new_session = []"
    by (simp_all add: new_session_def)
  note d = valid_deltas [OF valid]
  have acc: "accumulatedContent (fst (read_loop ev (new_session, w) chunks)) =
           concat (deltas ev (lines_of chunks))"
    unfolding read_loop_lines_of
    using process_lines_text [of ev new_session w "lines_of chunks"] d empty by simp
  have store: "updates (snd (read_loop ev (new_session, w) chunks)) =
              updates w @ map (UpdateStreamingMessage (''msg_'' @ dec (clock w (clock_reads w))))
                            (running [] (deltas ev (lines_of chunks)))"
    if "ChatState_messages w = Some ms" for ms
    unfolding read_loop_lines_of
    using process_lines_first [OF none that, of ev "lines_of chunks"] d empty by simp
  have nostore: "updates (snd (read_loop ev (new_session, w) chunks)) = updates w \<and>
            assistantMessageId (fst (read_loop ev (new_session, w) chunks)) = None"
    if "ChatState_messages w = None"
    unfolding read_loop_lines_of
    using process_lines_no_store [OF that none, of ev "lines_of chunks"] by simp
  from acc store nostore show ?thesis by auto
qed

theorem content_chunks_concatenated_witness:
  \<open>ChatState_messages shipped_world = None
   \<and> deltas sample_env (lines_of [''data: {"type":"content","content":"Hel"}\<newline>\<newline>'',
         ''data: {"type":"content","content":"lo"}\<newline>data: {"type":"complete"}\<newline>'']) =
       [''Hel'', ''lo'']
   \<and> accumulatedContent
        (fst (read_loop sample_env (new_session, shipped_world)
                [''data: {"type":"content","content":"Hel"}\<newline>\<newline>'',
                 ''data: {"type":"content","content":"lo"}\<newline>data: {"type":"complete"}\<newline>''])) = ''Hello''
   \<and> updates
        (snd (read_loop sample_env (new_session, shipped_world)
                [''data: {"type":"content","content":"Hel"}\<newline>\<newline>'',
                 ''data: {"type":"content","content":"lo"}\<newline>data: {"type":"complete"}\<newline>''])) = []
   \<and> console
        (snd (read_loop sample_env (new_session, shipped_world)
                [''data: {"type":"content","content":"Hel"}\<newline>\<newline>'',
                 ''data: {"type":"content","content":"lo"}\<newline>data: {"type":"complete"}\<newline>''])) =
       [TypeError, TypeError]
   \<and> updates
        (snd (read_loop sample_env (new_session, sample_world)
                [''data: {"type":"content","content":"Hel"}\<newline>\<newline>'',
                 ''data: {"type":"content","content":"lo"}\<newline>data: {"type":"complete"}\<newline>''])) =
       [UpdateStreamingMessage ''msg_1000'' ''Hel'', UpdateStreamingMessage ''msg_1000'' ''Hello'']\<close>
proof -
  let ?chunks = \<open>[''data: {"type":"content","content":"Hel"}\<newline>\<newline>'',
                 ''data: {"type":"content","content":"lo"}\<newline>data: {"type":"complete"}\<newline>'']\<close>
  have lines: \<open>lines_of ?chunks =
      [''data: {"type":"content","content":"Hel"}'', [], [],
       ''data: {"type":"content","content":"lo"}'', ''data: {"type":"complete"}'', []]\<close>
    by (simp add: lines_of_def Let_def)
  have ds: "deltas sample_env (lines_of ?chunks) = [''Hel'', ''lo'']"
    unfolding lines
    by (simp add: content_delta_def typed_content_def startsWith_def sample_env_def sample_parse_def)
  have valid: "\<forall>l \<in> set (lines_of ?chunks). typed_content sample_env l \<longrightarrow>
                content_delta sample_env l \<noteq> None"
    unfolding lines
    by (simp add: content_delta_def typed_content_def startsWith_def sample_env_def sample_parse_def)
  have nostore: "ChatState_messages shipped_world = None" and noupd: "updates shipped_world = []"
    and store: "ChatState_messages sample_world \<noteq> None" and noupd': "updates sample_world = []"
    and id: "''msg_'' @ dec (clock sample_world (clock_reads sample_world)) = ''msg_1000''"
    by (simp_all add: shipped_world_def sample_world_def updates_def dec.simps)
  note a = content_chunks_concatenated [OF valid, of shipped_world]
  note b = content_chunks_concatenated [OF valid, of sample_world]
  have t: "accumulatedContent (fst (read_loop sample_env (new_session, shipped_world) ?chunks)) = ''Hello''"
    unfolding a [THEN conjunct1] ds by simp
  have u: "updates (snd (read_loop sample_env (new_session, shipped_world) ?chunks)) = []"
    using a [THEN conjunct2, THEN conjunct2] nostore noupd by simp
  have v: "updates (snd (read_loop sample_env (new_session, sample_world) ?chunks)) =
       [UpdateStreamingMessage ''msg_1000'' ''Hel'', UpdateStreamingMessage ''msg_1000'' ''Hello'']"
    using b [THEN conjunct2, THEN conjunct1] store noupd' unfolding ds id by simp
  have k: "console (snd (read_loop sample_env (new_session, shipped_world) ?chunks)) =
             [TypeError, TypeError]"
    unfolding read_loop_lines_of lines
    by (simp add: process_line_def handle_data_def startsWith_def sample_env_def
          sample_parse_def concat_operand_def new_session_def addAssistantMessage_def
          createMessageElement_def finalizeStreamingMessage_def getElementById_def called_def
          console_error_def Date_now_def appendMessage_def shipped_world_def Let_def)
  from nostore ds t u k v show ?thesis by blast
qed


subsection \<open>Chunk boundaries\<close>


lemma split_nl_nonempty [simp]: "split_nl s \<noteq> []"
  by (induction s) (simp_all add: Let_def)

lemma split_nl_append_nl:
  "split_nl (a @ CHR ''\<newline>'' # b) = split_nl a @ split_nl b"
  by (induction a) (simp_all add: Let_def)

lemma process_aligned:
  assumes "line_aligned a"
  shows "foldl (process_line ev) st (split_nl (a @ b)) =
         foldl (process_line ev) (foldl (process_line ev) st (split_nl a)) (split_nl b)"
proof (cases "a = []")
  case True
  then show ?thesis by (simp add: process_line_unmarked startsWith_def)
next
  case False
  with assms obtain a0 where a: "a = a0 @ [CHR ''\<newline>'']"
    by (metis line_aligned_def append_butlast_last_id)
  have "split_nl (a @ b) = split_nl a0 @ split_nl b"
    using split_nl_append_nl [of a0 b] a by simp
  moreover have "split_nl a = split_nl a0 @ [[]]"
    using split_nl_append_nl [of a0 "[]"] a by simp
  ultimately show ?thesis by (simp add: process_line_unmarked startsWith_def)
qed

text \<open>
  C2, as the code has it. Each chunk is split on newline and every segment is handled
  as a line of its own; nothing of a chunk is kept for the next one. So when every chunk
  ends on a line boundary, the loop does exactly what it does on the whole body read at
  once: no line is lost or parsed wrongly.
\<close>

theorem aligned_chunks_parse_as_whole:
  assumes "\<forall>c \<in> set chunks. line_aligned c"
  shows "read_loop ev st chunks = read_loop ev st [concat chunks]"
  using assms
proof (induction chunks arbitrary: st)
  case Nil
  then show ?case
    by (simp add: read_loop_def process_chunk_def process_line_unmarked startsWith_def)
next
  case (Cons c cs)
  then have c: "line_aligned c" and cs: "\<forall>c \<in> set cs. line_aligned c" by simp_all
  have "read_loop ev st (c # cs) = read_loop ev (process_chunk ev st c) cs"
    by (simp add: read_loop_def)
  also have "\<dots> = read_loop ev (process_chunk ev st c) [concat cs]"
    using Cons.IH [OF cs] .
  also have "\<dots> = read_loop ev st [concat (c # cs)]"
    using process_aligned [OF c, of ev st "concat cs"]
    by (simp add: read_loop_def process_chunk_def)
  finally show ?case .
qed

text \<open>
  A line cut by a chunk boundary is not reassembled: its first half fails to parse and
  its second half carries no marker, so the delta \<^verbatim>\<open>Hel\<close> is lost.
\<close>

theorem split_line_lost_counterexample:
  \<open>accumulatedContent
      (fst (read_loop sample_env (new_session, sample_world)
              [''data: {"type":"content","con'',
               ''tent":"Hel"}\<newline>data: {"type":"content","content":"lo"}\<newline>''])) = ''lo''
   \<and> accumulatedContent
      (fst (read_loop sample_env (new_session, sample_world)
              [''data: {"type":"content","content":"Hel"}\<newline>data: {"type":"content","content":"lo"}\<newline>''])) = ''Hello''\<close>
  by (simp add: read_loop_def process_chunk_def process_line_def handle_data_def startsWith_def
        sample_env_def sample_parse_def concat_operand_def new_session_def addAssistantMessage_def
        Date_now_def appendMessage_def sample_world_def Let_def console_error_def called_def
        updateStreamingMessage_def getElementById_def dec.simps)

theorem aligned_chunks_parse_as_whole_witness:
  \<open>line_aligned ''data: {"type":"content","content":"Hel"}\<newline>''
   \<and> line_aligned ''data: {"type":"content","content":"lo"}\<newline>''
   \<and> read_loop sample_env (new_session, sample_world)
         [''data: {"type":"content","content":"Hel"}\<newline>'',
          ''data: {"type":"content","content":"lo"}\<newline>''] =
       read_loop sample_env (new_session, sample_world)
         [''data: {"type":"content","content":"Hel"}\<newline>data: {"type":"content","content":"lo"}\<newline>'']\<close>
proof -
  have aligned:
    \<open>\<forall>c \<in> set [''data: {"type":"content","content":"Hel"}\<newline>'',
                     ''data: {"type":"content","content":"lo"}\<newline>'']. line_aligned c\<close>
    by (simp add: line_aligned_def)
  from aligned_chunks_parse_as_whole [OF aligned, of sample_env "(new_session, sample_world)"] aligned
  show ?thesis by simp
qed
subsection \<open>Completion\<close>

lemma complete_appends_nothing: "complete_line ev l \<Longrightarrow> append_operand ev l = None"
  by (auto simp: complete_line_def append_operand_def typed_content_def split: option.splits)

lemma complete_step:
  assumes "complete_line ev l"
  shows "process_line ev (ss, w) l =
           (case finalizeStreamingMessage (assistantMessageId ss)
                   (called (FinalizeStreamingMessage (assistantMessageId ss)) w) of
              (None, w1) \<Rightarrow> (ss, w1)
            | (Some e, w1) \<Rightarrow> (ss, console_error e w1))"
  using assms
  by (auto simp: complete_line_def process_line_def handle_data_def split: option.splits prod.splits)

lemma created_cong:
  assumes "assistantMessageId s' = assistantMessageId s"
    and "has_chatMessages w' = has_chatMessages w"
    and "map el_id (document w') = map el_id (document w)"
    and "map_option (map msg_id) (ChatState_messages w') = map_option (map msg_id) (ChatState_messages w)"
  shows "created i (s', w') = created i (s, w)"
  using assms
  by (cases "ChatState_messages w"; cases "ChatState_messages w'") (simp_all add: created_def)

lemma awaiting_cong:
  assumes "assistantMessageId s' = assistantMessageId s"
    and "has_chatMessages w' = has_chatMessages w"
    and "clock w' = clock w" and "clock_reads w' = clock_reads w"
    and "map el_id (document w') = map el_id (document w)"
    and "map_option (map msg_id) (ChatState_messages w') = map_option (map msg_id) (ChatState_messages w)"
  shows "awaiting i (s', w') = awaiting i (s, w)"
  using assms
  by (cases "ChatState_messages w"; cases "ChatState_messages w'") (simp_all add: awaiting_def)

lemma created_step:
  assumes "created i (ss, w)"
  shows "created i (process_line ev (ss, w) l)"
proof (cases "append_operand ev l")
  case None
  obtain s1 w1 where r: "process_line ev (ss, w) l = (s1, w1)"
    by (cases "process_line ev (ss, w) l")
  from process_line_other [OF None, of ss w] r
  have "created i (s1, w1) = created i (ss, w)"
    by (intro created_cong) simp_all
  with assms r show ?thesis by simp
next
  case (Some s)
  from assms have i: "assistantMessageId ss = Some i" by (simp add: created_def)
  let ?w' = "updateStreamingMessage ev i (accumulatedContent ss @ s)
              (called (UpdateStreamingMessage i (accumulatedContent ss @ s)) w)"
  have "created i (ss\<lparr>accumulatedContent := accumulatedContent ss @ s\<rparr>, ?w') = created i (ss, w)"
    by (intro created_cong) (simp_all add: updateStreamingMessage_frame called_frame)
  with assms process_line_append_known [OF Some i, of w] show ?thesis by simp
qed

lemma created_steps:
  "created i st \<Longrightarrow> created i (foldl (process_line ev) st ls)"
proof (induction ls arbitrary: st)
  case Nil
  then show ?case by simp
next
  case (Cons l ls)
  obtain ss w where st: "st = (ss, w)" by (cases st)
  from Cons.prems st have "created i (process_line ev (ss, w) l)" by (simp add: created_step)
  from Cons.IH [OF this] st show ?case by simp
qed

lemma awaiting_step_other:
  assumes "awaiting i (ss, w)" and "append_operand ev l = None"
  shows "awaiting i (process_line ev (ss, w) l)"
proof -
  obtain s1 w1 where r: "process_line ev (ss, w) l = (s1, w1)"
    by (cases "process_line ev (ss, w) l")
  from process_line_other [OF assms(2), of ss w] r
  have "awaiting i (s1, w1) = awaiting i (ss, w)"
    by (intro awaiting_cong) simp_all
  with assms r show ?thesis by simp
qed

lemma awaiting_step_creates:
  assumes "awaiting i (ss, w)" and "append_operand ev l = Some s"
  shows "created i (process_line ev (ss, w) l)"
proof -
  from assms(1) obtain ms where none: "assistantMessageId ss = None"
    and container: "has_chatMessages w"
    and i: "i = ''msg_'' @ dec (clock w (clock_reads w))"
    and fresh: "i \<notin> set (map el_id (document w))"
    and store: "ChatState_messages w = Some ms" and fresh_ms: "i \<notin> set (map msg_id ms)"
    by (auto simp: awaiting_def split: option.splits)
  obtain x w0 where a: "addAssistantMessage ev [] True w = (x, w0)"
    by (cases "addAssistantMessage ev [] True w")
  from addAssistantMessage_store [OF store, of ev "[]" True] a container i
  have x: "x = Inr i" and c0: "has_chatMessages w0"
    and m0: "ChatState_messages w0 =
               Some (ms @ [\<lparr>msg_id = i, msg_type = ''assistant'', msg_content = [],
                             msg_isStreaming = Some True\<rparr>])"
    and d0: "document w0 =
               document w @ [(createMessageElement ev [])\<lparr>el_id := i, el_streaming := True\<rparr>]"
    by simp_all
  let ?w' = "updateStreamingMessage ev i (accumulatedContent ss @ s)
              (called (UpdateStreamingMessage i (accumulatedContent ss @ s)) w0)"
  from process_line_append_first [OF assms(2) none, of w] a x
  have r: "process_line ev (ss, w) l =
             (ss\<lparr>accumulatedContent := accumulatedContent ss @ s, assistantMessageId := Some i\<rparr>, ?w')"
    by simp
  from fresh have e: "count_list (map el_id (document w0)) i = 1"
    unfolding d0 by (simp add: count_list_0_iff)
  from fresh_ms have m: "count_list (map msg_id (ms @ [\<lparr>msg_id = i, msg_type = ''assistant'',
                            msg_content = [], msg_isStreaming = Some True\<rparr>])) i = 1"
    by (simp add: count_list_0_iff)
  show ?thesis
    unfolding r using c0 m0 e m
    by (simp add: created_def updateStreamingMessage_frame called_frame)
qed

lemma awaiting_steps:
  "awaiting i st \<Longrightarrow> \<exists>l \<in> set ls. append_operand ev l \<noteq> None \<Longrightarrow>
   created i (foldl (process_line ev) st ls)"
proof (induction ls arbitrary: st)
  case Nil
  then show ?case by simp
next
  case (Cons l ls)
  obtain ss w where st: "st = (ss, w)" by (cases st)
  show ?case
  proof (cases "append_operand ev l")
    case None
    with Cons.prems(2) have rest: "\<exists>l \<in> set ls. append_operand ev l \<noteq> None" by auto
    from Cons.prems(1) st None have "awaiting i (process_line ev (ss, w) l)"
      by (simp add: awaiting_step_other)
    from Cons.IH [OF this rest] st show ?thesis by simp
  next
    case (Some s)
    from Cons.prems(1) st Some have "created i (process_line ev (ss, w) l)"
      by (simp add: awaiting_step_creates)
    from created_steps [OF this, of ev ls] st show ?thesis by simp
  qed
qed

lemma update_first_unique:
  assumes "count_list (map g xs) i = 1" and "\<And>x. g (f x) = g x" and "\<And>x. Q (f x)"
  shows "\<forall>y \<in> set (update_first (\<lambda>x. g x = i) f xs). g y = i \<longrightarrow> Q y"
  using assms(1)
proof (induction xs)
  case Nil
  then show ?case by simp
next
  case (Cons x xs)
  show ?case
  proof (cases "g x = i")
    case True
    with Cons.prems have "count_list (map g xs) i = 0" by simp
    then have "i \<notin> set (map g xs)" by (simp add: count_list_0_iff)
    then have "\<forall>y \<in> set xs. g y \<noteq> i" by auto
    with True assms(3) show ?thesis by simp
  next
    case False
    with Cons show ?thesis by simp
  qed
qed

lemma update_first_noop: "\<forall>x \<in> set xs. P x \<longrightarrow> f x = x \<Longrightarrow> update_first P f xs = xs"
  by (induction xs) simp_all

lemma counted_found: "count_list (map g xs) i = 1 \<Longrightarrow> find (\<lambda>x. g x = i) xs \<noteq> None"
proof -
  assume "count_list (map g xs) i = 1"
  then have "count_list (map g xs) i \<noteq> 0" by simp
  then have "i \<in> set (map g xs)" by (simp add: count_list_0_iff)
  then show ?thesis by (auto simp: find_None_iff)
qed

lemma finalize_created:
  assumes "count_list (map el_id (document w)) i = 1" and "ChatState_messages w = Some ms"
  shows "finalizeStreamingMessage (Some i) w =
           (None,
            w\<lparr>document := update_first (\<lambda>e. el_id e = i)
                             (\<lambda>e. e\<lparr>el_streaming := False, el_cursor := False\<rparr>) (document w),
              ChatState_messages :=
                Some (update_first (\<lambda>m. msg_id m = i)
                        (\<lambda>m. m\<lparr>msg_isStreaming := Some False\<rparr>) ms)\<rparr>)"
  using counted_found [OF assms(1)] assms(2)
  by (auto simp: finalizeStreamingMessage_def getElementById_def Let_def)

lemma created_complete:
  assumes "created i (ss, w)" and "complete_line ev l"
  shows "fst (process_line ev (ss, w) l) = ss"
    and "message_finalized i (snd (process_line ev (ss, w) l))"
    and "ui_calls (snd (process_line ev (ss, w) l)) = ui_calls w @ [FinalizeStreamingMessage (Some i)]"
proof -
  from assms(1) obtain ms where i: "assistantMessageId ss = Some i"
    and one: "count_list (map el_id (document w)) i = 1"
    and store: "ChatState_messages w = Some ms" and one_ms: "count_list (map msg_id ms) i = 1"
    by (auto simp: created_def split: option.splits)
  let ?w0 = "called (FinalizeStreamingMessage (Some i)) w"
  let ?D = "update_first (\<lambda>e. el_id e = i)
              (\<lambda>e. e\<lparr>el_streaming := False, el_cursor := False\<rparr>) (document w)"
  let ?M = "update_first (\<lambda>m. msg_id m = i) (\<lambda>m. m\<lparr>msg_isStreaming := Some False\<rparr>) ms"
  from one store have "finalizeStreamingMessage (Some i) ?w0 =
      (None, ?w0\<lparr>document := ?D, ChatState_messages := Some ?M\<rparr>)"
    using finalize_created [of ?w0 i ms] by (simp add: called_frame)
  with complete_step [OF assms(2), of ss w] i
  have r: "process_line ev (ss, w) l = (ss, ?w0\<lparr>document := ?D, ChatState_messages := Some ?M\<rparr>)"
    by simp
  from r show "fst (process_line ev (ss, w) l) = ss" by simp
  from r show "ui_calls (snd (process_line ev (ss, w) l)) =
                 ui_calls w @ [FinalizeStreamingMessage (Some i)]"
    by (simp add: called_frame)
  have idsD: "map el_id ?D = map el_id (document w)" by (rule map_id_update_first) simp
  have idsM: "map msg_id ?M = map msg_id ms" by (rule map_id_update_first) simp
  from one have "i \<in> set (map el_id (document w))"
    using count_list_0_iff [of "map el_id (document w)" i] by simp
  with idsD have "i \<in> set (map el_id ?D)" by simp
  then have exD: "\<exists>e \<in> set ?D. el_id e = i" by auto
  from one_ms have "i \<in> set (map msg_id ms)"
    using count_list_0_iff [of "map msg_id ms" i] by simp
  with idsM have "i \<in> set (map msg_id ?M)" by simp
  then have exM: "\<exists>m \<in> set ?M. msg_id m = i" by auto
  have allD: "\<forall>e \<in> set ?D. el_id e = i \<longrightarrow> \<not> el_streaming e \<and> \<not> el_cursor e"
    by (rule update_first_unique [OF one]) simp_all
  have allM: "\<forall>m \<in> set ?M. msg_id m = i \<longrightarrow> msg_isStreaming m = Some False"
    by (rule update_first_unique [OF one_ms]) simp_all
  show "message_finalized i (snd (process_line ev (ss, w) l))"
    unfolding r message_finalized_def using exD exM allD allM by simp
qed

lemma finalized_complete_again:
  assumes "created i (ss, w)" and "message_finalized i w" and "complete_line ev l"
  shows "fst (process_line ev (ss, w) l) = ss"
    and "document (snd (process_line ev (ss, w) l)) = document w"
    and "ChatState_messages (snd (process_line ev (ss, w) l)) = ChatState_messages w"
proof -
  from assms(1) obtain ms where i: "assistantMessageId ss = Some i"
    and one: "count_list (map el_id (document w)) i = 1"
    and store: "ChatState_messages w = Some ms"
    by (auto simp: created_def split: option.splits)
  let ?w0 = "called (FinalizeStreamingMessage (Some i)) w"
  let ?D = "update_first (\<lambda>e. el_id e = i)
              (\<lambda>e. e\<lparr>el_streaming := False, el_cursor := False\<rparr>) (document w)"
  let ?M = "update_first (\<lambda>m. msg_id m = i) (\<lambda>m. m\<lparr>msg_isStreaming := Some False\<rparr>) ms"
  from one store have "finalizeStreamingMessage (Some i) ?w0 =
      (None, ?w0\<lparr>document := ?D, ChatState_messages := Some ?M\<rparr>)"
    using finalize_created [of ?w0 i ms] by (simp add: called_frame)
  with complete_step [OF assms(3), of ss w] i
  have r: "process_line ev (ss, w) l = (ss, ?w0\<lparr>document := ?D, ChatState_messages := Some ?M\<rparr>)"
    by simp
  from assms(2) store
  have fixD: "\<forall>e \<in> set (document w). el_id e = i \<longrightarrow>
                e\<lparr>el_streaming := False, el_cursor := False\<rparr> = e"
    and fixM: "\<forall>m \<in> set ms. msg_id m = i \<longrightarrow> m\<lparr>msg_isStreaming := Some False\<rparr> = m"
    by (auto simp: message_finalized_def)
  from fixD have D: "?D = document w" by (rule update_first_noop)
  from fixM have M: "?M = ms" by (rule update_first_noop)
  from r show "fst (process_line ev (ss, w) l) = ss" by simp
  from r D show "document (snd (process_line ev (ss, w) l)) = document w"
    by (simp add: called_frame)
  from r M store show "ChatState_messages (snd (process_line ev (ss, w) l)) = ChatState_messages w"
    by simp
qed

lemma untyped_step_without_message:
  assumes "append_operand ev l = None" and "assistantMessageId ss = None"
    and "getElementById ''null'' w = None"
  shows "fst (process_line ev (ss, w) l) = ss"
    and "document (snd (process_line ev (ss, w) l)) = document w"
    and "ChatState_messages (snd (process_line ev (ss, w) l)) = ChatState_messages w"
proof -
  let ?w' = "snd (process_line ev (ss, w) l)"
  let ?w0 = "called (FinalizeStreamingMessage None) w"
  have "getElementById ''null'' ?w0 = None"
    using assms(3) by (simp add: getElementById_def called_frame)
  then have f: "finalizeStreamingMessage None ?w0 = (None, ?w0)"
    by (simp add: finalizeStreamingMessage_def)
  note c = process_line_other_cases [OF assms(1), of ss w]
  from c show "fst (process_line ev (ss, w) l) = ss" by simp
  from c assms(2) f consider (same) "without_console ?w' = without_console w"
    | (analysis) a where "without_console ?w' = without_console (called (UpdateAnalysisPanel a) w)"
    | (complete) "without_console ?w' = without_console ?w0"
    by auto
  then have "document ?w' = document w \<and> ChatState_messages ?w' = ChatState_messages w"
  proof cases
    case same
    from without_console_frame(4,5) [OF same] show ?thesis by simp
  next
    case analysis
    from without_console_frame(4,5) [OF analysis] show ?thesis by (simp add: called_frame)
  next
    case complete
    from without_console_frame(4,5) [OF complete] show ?thesis by (simp add: called_frame)
  qed
  then show "document ?w' = document w" and "ChatState_messages ?w' = ChatState_messages w"
    by simp_all
qed

lemma untyped_steps_without_message:
  "\<forall>l \<in> set ls. \<not> typed_content ev l \<Longrightarrow> assistantMessageId ss = None \<Longrightarrow>
   getElementById ''null'' w = None \<Longrightarrow>
   fst (foldl (process_line ev) (ss, w) ls) = ss \<and>
   document (snd (foldl (process_line ev) (ss, w) ls)) = document w \<and>
   ChatState_messages (snd (foldl (process_line ev) (ss, w) ls)) = ChatState_messages w"
proof (induction ls arbitrary: w)
  case Nil
  then show ?case by simp
next
  case (Cons l ls)
  obtain s1 w1 where r: "process_line ev (ss, w) l = (s1, w1)"
    by (cases "process_line ev (ss, w) l")
  from Cons.prems(1) have "append_operand ev l = None" by (simp add: untyped_appends_nothing)
  from untyped_step_without_message [OF this Cons.prems(2,3)] r
  have s1: "s1 = ss" and d1: "document w1 = document w"
    and m1: "ChatState_messages w1 = ChatState_messages w" by simp_all
  from d1 Cons.prems(3) have "getElementById ''null'' w1 = None" by (simp add: getElementById_def)
  from Cons.IH [OF _ Cons.prems(2) this] Cons.prems(1) r s1 d1 m1 show ?case by simp
qed

lemma complete_untyped: "complete_line ev l \<Longrightarrow> \<not> typed_content ev l"
  by (auto simp: complete_line_def typed_content_def split: option.splits)


text \<open>
  C8, as the code has it. Take a page with the message container and with
  \<^verbatim>\<open>ChatState.messages\<close> an array, on which no element and no stored message carries the
  id the assistant message is about to get. Once a valid \<^verbatim>\<open>content\<close> chunk has come,
  whatever other lines came with it, a \<^verbatim>\<open>complete\<close> chunk finalizes the session's
  message: every element with the message's id has lost the \<^verbatim>\<open>streaming\<close> class and the
  cursor, and every stored message with the id has \<^verbatim>\<open>isStreaming = false\<close>. The chunk
  leaves the session as it was, and the call of \<^verbatim>\<open>finalizeStreamingMessage\<close> with the
  message's id is the one notification it causes. A second \<^verbatim>\<open>complete\<close> chunk changes
  neither session, page elements nor store.
  With no chunk of type \<^verbatim>\<open>content\<close> before it, on any page without an element of id
  \<^verbatim>\<open>null\<close>, there is no message: \<^verbatim>\<open>finalizeStreamingMessage(null)\<close> finds no element and
  returns, and session, elements and store stay as they were.
\<close>

theorem complete_finalizes_created_message:
  assumes store: "ChatState_messages w = Some ms"
    and container: "has_chatMessages w"
    and fresh_element: "''msg_'' @ dec (clock w (clock_reads w)) \<notin> el_id ` set (document w)"
    and fresh_message: "''msg_'' @ dec (clock w (clock_reads w)) \<notin> msg_id ` set ms"
    and some: "l0 \<in> set pre" "content_line ev l0 c"
    and complete: "complete_line ev l"
  shows "assistantMessageId (fst (foldl (process_line ev) (new_session, w) (pre @ [l]))) =
           Some (''msg_'' @ dec (clock w (clock_reads w)))
       \<and> session_finalized (foldl (process_line ev) (new_session, w) (pre @ [l]))
       \<and> fst (foldl (process_line ev) (new_session, w) (pre @ [l])) =
           fst (foldl (process_line ev) (new_session, w) pre)
       \<and> ui_calls (snd (foldl (process_line ev) (new_session, w) (pre @ [l]))) =
           ui_calls (snd (foldl (process_line ev) (new_session, w) pre)) @
           [FinalizeStreamingMessage (Some (''msg_'' @ dec (clock w (clock_reads w))))]
       \<and> fst (foldl (process_line ev) (new_session, w) (pre @ [l, l])) =
           fst (foldl (process_line ev) (new_session, w) (pre @ [l]))
       \<and> document (snd (foldl (process_line ev) (new_session, w) (pre @ [l, l]))) =
           document (snd (foldl (process_line ev) (new_session, w) (pre @ [l])))
       \<and> ChatState_messages (snd (foldl (process_line ev) (new_session, w) (pre @ [l, l]))) =
           ChatState_messages (snd (foldl (process_line ev) (new_session, w) (pre @ [l])))
       \<and> ((\<forall>l' \<in> set pre0. \<not> typed_content ev l') \<and> getElementById ''null'' w0 = None \<longrightarrow>
            fst (foldl (process_line ev) (new_session, w0) (pre0 @ [l])) = new_session \<and>
            document (snd (foldl (process_line ev) (new_session, w0) (pre0 @ [l]))) = document w0 \<and>
            ChatState_messages (snd (foldl (process_line ev) (new_session, w0) (pre0 @ [l]))) =
              ChatState_messages w0)"
proof -
  let ?i = "''msg_'' @ dec (clock w (clock_reads w))"
  have none: "assistantMessageId new_session = None" by (simp add: new_session_def)
  from store container fresh_element fresh_message none
  have aw: "awaiting ?i (new_session, w)" by (simp add: awaiting_def)
  from some(2) have "append_operand ev l0 = Some c"
    by (simp add: content_line_delta content_delta_appends)
  with some(1) have "\<exists>l \<in> set pre. append_operand ev l \<noteq> None" by auto
  from awaiting_steps [OF aw this]
  have cr: "created ?i (foldl (process_line ev) (new_session, w) pre)" .
  obtain s2 w2 where r2: "foldl (process_line ev) (new_session, w) pre = (s2, w2)"
    by (cases "foldl (process_line ev) (new_session, w) pre")
  obtain s3 w3 where r3: "process_line ev (s2, w2) l = (s3, w3)"
    by (cases "process_line ev (s2, w2) l")
  from cr r2 have cr2: "created ?i (s2, w2)" by simp
  from created_step [OF cr2, of ev l] r3 have cr3: "created ?i (s3, w3)" by simp
  from created_complete [OF cr2 complete] r3
  have s3: "s3 = s2" and fin: "message_finalized ?i w3"
    and calls: "ui_calls w3 = ui_calls w2 @ [FinalizeStreamingMessage (Some ?i)]"
    by simp_all
  from cr3 have i3: "assistantMessageId s3 = Some ?i" by (simp add: created_def)
  have run1: "foldl (process_line ev) (new_session, w) (pre @ [l]) = (s3, w3)"
    using r2 r3 by simp
  have run2: "foldl (process_line ev) (new_session, w) (pre @ [l, l]) = process_line ev (s3, w3) l"
    using r2 r3 by simp
  have a: "assistantMessageId (fst (foldl (process_line ev) (new_session, w) (pre @ [l]))) = Some ?i"
    unfolding run1 using i3 by simp
  have b: "session_finalized (foldl (process_line ev) (new_session, w) (pre @ [l]))"
    unfolding run1 using i3 fin by (simp add: session_finalized_def)
  have c: "fst (foldl (process_line ev) (new_session, w) (pre @ [l])) =
           fst (foldl (process_line ev) (new_session, w) pre)"
    unfolding run1 r2 using s3 by simp
  have d: "ui_calls (snd (foldl (process_line ev) (new_session, w) (pre @ [l]))) =
           ui_calls (snd (foldl (process_line ev) (new_session, w) pre)) @
           [FinalizeStreamingMessage (Some ?i)]"
    unfolding run1 r2 using calls by simp
  note again = finalized_complete_again [OF cr3 fin complete]
  have e: "fst (foldl (process_line ev) (new_session, w) (pre @ [l, l])) =
           fst (foldl (process_line ev) (new_session, w) (pre @ [l]))"
    unfolding run1 run2 using again(1) by simp
  have f: "document (snd (foldl (process_line ev) (new_session, w) (pre @ [l, l]))) =
           document (snd (foldl (process_line ev) (new_session, w) (pre @ [l])))"
    unfolding run1 run2 using again(2) by simp
  have g: "ChatState_messages (snd (foldl (process_line ev) (new_session, w) (pre @ [l, l]))) =
           ChatState_messages (snd (foldl (process_line ev) (new_session, w) (pre @ [l])))"
    unfolding run1 run2 using again(3) by simp
  have h: "(\<forall>l' \<in> set pre0. \<not> typed_content ev l') \<and> getElementById ''null'' w0 = None \<longrightarrow>
            fst (foldl (process_line ev) (new_session, w0) (pre0 @ [l])) = new_session \<and>
            document (snd (foldl (process_line ev) (new_session, w0) (pre0 @ [l]))) = document w0 \<and>
            ChatState_messages (snd (foldl (process_line ev) (new_session, w0) (pre0 @ [l]))) =
              ChatState_messages w0"
  proof
    assume z: "(\<forall>l' \<in> set pre0. \<not> typed_content ev l') \<and> getElementById ''null'' w0 = None"
    with complete_untyped [OF complete]
    have all: "\<forall>l' \<in> set (pre0 @ [l]). \<not> typed_content ev l'" by simp
    from z have nonull: "getElementById ''null'' w0 = None" by simp
    from untyped_steps_without_message [OF all none nonull]
    show "fst (foldl (process_line ev) (new_session, w0) (pre0 @ [l])) = new_session \<and>
            document (snd (foldl (process_line ev) (new_session, w0) (pre0 @ [l]))) = document w0 \<and>
            ChatState_messages (snd (foldl (process_line ev) (new_session, w0) (pre0 @ [l]))) =
              ChatState_messages w0" .
  qed
  show ?thesis
    by (rule conjI [OF a conjI [OF b conjI [OF c conjI [OF d conjI [OF e conjI [OF f
          conjI [OF g h]]]]]]])
qed


text \<open>
  A \<^verbatim>\<open>complete\<close> chunk that no content chunk preceded marks nothing complete.
\<close>

theorem complete_without_content_counterexample:
  \<open>\<not> session_finalized
        (process_line sample_env (new_session, sample_world) ''data: {"type":"complete"}'')
   \<and> fst (process_line sample_env (new_session, sample_world) ''data: {"type":"complete"}'')
       = new_session
   \<and> document (snd (process_line sample_env (new_session, sample_world) ''data: {"type":"complete"}''))
       = []
   \<and> ChatState_messages
        (snd (process_line sample_env (new_session, sample_world) ''data: {"type":"complete"}''))
       = Some []\<close>
  by (simp add: session_finalized_def process_line_def handle_data_def startsWith_def sample_env_def
        sample_parse_def new_session_def sample_world_def finalizeStreamingMessage_def
        getElementById_def called_def)

theorem complete_finalizes_created_message_witness:
  \<open>ChatState_messages sample_world = Some [] \<and> has_chatMessages sample_world
   \<and> document sample_world = []
   \<and> content_line sample_env ''data: {"type":"content","content":"Hel"}'' ''Hel''
   \<and> complete_line sample_env ''data: {"type":"complete"}''
   \<and> \<not> typed_content sample_env ''data: not json''
   \<and> getElementById ''null'' sample_world = None
   \<and> session_finalized
        (foldl (process_line sample_env) (new_session, sample_world)
           [''data: not json'', ''data: {"type":"content","content":"Hel"}'',
            ''data: {"type":"complete"}'', ''data: {"type":"content","content":"lo"}'',
            ''data: {"type":"complete"}''])
   \<and> document (snd
        (foldl (process_line sample_env) (new_session, sample_world)
           [''data: not json'', ''data: {"type":"content","content":"Hel"}'',
            ''data: {"type":"complete"}'', ''data: {"type":"content","content":"lo"}'',
            ''data: {"type":"complete"}''])) =
       [\<lparr>el_id = ''msg_1000'', el_streaming = False, el_bubble = ''<p>Hello</p>'',
         el_cursor = False\<rparr>]
   \<and> fst (foldl (process_line sample_env) (new_session, sample_world)
            [''data: not json'', ''data: {"type":"complete"}'']) = new_session\<close>
proof -
  let ?pre = \<open>[''data: not json'', ''data: {"type":"content","content":"Hel"}'',
            ''data: {"type":"complete"}'', ''data: {"type":"content","content":"lo"}'']\<close>
  have nonull: "getElementById ''null'' sample_world = None"
    by (simp add: getElementById_def sample_world_def)
  have store: "ChatState_messages sample_world = Some []"
    and container: "has_chatMessages sample_world" and doc: "document sample_world = []"
    by (simp_all add: sample_world_def)
  have fresh_element: "''msg_'' @ dec (clock sample_world (clock_reads sample_world))
                         \<notin> el_id ` set (document sample_world)"
    and fresh_message: "''msg_'' @ dec (clock sample_world (clock_reads sample_world))
                         \<notin> msg_id ` set []"
    by (simp_all add: sample_world_def)
  have l0: \<open>''data: {"type":"content","content":"Hel"}'' \<in> set ?pre\<close> by simp
  have valid: \<open>content_line sample_env ''data: {"type":"content","content":"Hel"}'' ''Hel''\<close>
    by (simp add: content_line_def startsWith_def sample_env_def sample_parse_def)
  have complete: \<open>complete_line sample_env ''data: {"type":"complete"}''\<close>
    by (simp add: complete_line_def startsWith_def sample_env_def sample_parse_def)
  have bad: "\<not> typed_content sample_env ''data: not json''"
    by (simp add: typed_content_def startsWith_def sample_env_def sample_parse_def)
  note c8 = complete_finalizes_created_message [OF store container fresh_element fresh_message
      l0 valid complete, of "[''data: not json'']" sample_world]
  have fin: \<open>session_finalized
        (foldl (process_line sample_env) (new_session, sample_world)
           [''data: not json'', ''data: {"type":"content","content":"Hel"}'',
            ''data: {"type":"complete"}'', ''data: {"type":"content","content":"lo"}'',
            ''data: {"type":"complete"}''])\<close>
    using c8 [THEN conjunct2, THEN conjunct1] by simp
  have zero: \<open>fst (foldl (process_line sample_env) (new_session, sample_world)
            [''data: not json'', ''data: {"type":"complete"}'']) = new_session\<close>
    using c8 [THEN conjunct2, THEN conjunct2, THEN conjunct2, THEN conjunct2, THEN conjunct2,
              THEN conjunct2, THEN conjunct2] bad nonull by simp
  have page: \<open>document (snd
        (foldl (process_line sample_env) (new_session, sample_world)
           [''data: not json'', ''data: {"type":"content","content":"Hel"}'',
            ''data: {"type":"complete"}'', ''data: {"type":"content","content":"lo"}'',
            ''data: {"type":"complete"}''])) =
       [\<lparr>el_id = ''msg_1000'', el_streaming = False, el_bubble = ''<p>Hello</p>'',
         el_cursor = False\<rparr>]\<close>
    by (simp add: process_line_def handle_data_def startsWith_def sample_env_def
          sample_parse_def concat_operand_def new_session_def addAssistantMessage_def
          createMessageElement_def updateStreamingMessage_def finalizeStreamingMessage_def
          getElementById_def called_def console_error_def
          Date_now_def appendMessage_def sample_world_def Let_def dec.simps)
  from store container doc valid complete bad nonull fin page zero show ?thesis by blast
qed

text \<open>
  Why the id must be carried by nothing else: \<^verbatim>\<open>getElementById\<close> and \<^verbatim>\<open>find\<close> return the
  first bearer of an id. When the user's message was created in the same millisecond as
  the assistant's, both have the same id, and the \<^verbatim>\<open>complete\<close> chunk (like each update
  before it) reaches the user's element and leaves the assistant's streaming.
\<close>

lemma shared_id_reaches_other_element:
  \<open>document (snd (foldl (process_line sample_env)
       (new_session, snd (addUserMessage ''hi'' (sample_world\<lparr>clock := \<lambda>n. 1000\<rparr>)))
       [''data: {"type":"content","content":"Hel"}'', ''data: {"type":"complete"}''])) =
     [\<lparr>el_id = ''msg_1000'', el_streaming = False, el_bubble = ''<p>Hel</p>'', el_cursor = False\<rparr>,
      \<lparr>el_id = ''msg_1000'', el_streaming = True, el_bubble = ''<p></p>'', el_cursor = False\<rparr>]
   \<and> \<not> session_finalized (foldl (process_line sample_env)
       (new_session, snd (addUserMessage ''hi'' (sample_world\<lparr>clock := \<lambda>n. 1000\<rparr>)))
       [''data: {"type":"content","content":"Hel"}'', ''data: {"type":"complete"}''])\<close>
  by (simp add: session_finalized_def message_finalized_def process_line_def handle_data_def
        startsWith_def sample_env_def sample_parse_def concat_operand_def new_session_def
        addAssistantMessage_def addUserMessage_def createMessageElement_def
        updateStreamingMessage_def finalizeStreamingMessage_def getElementById_def called_def
        console_error_def Date_now_def appendMessage_def sample_world_def Let_def dec.simps)


section \<open>Properties of the socket channels\<close>

subsection \<open>Parse failures\<close>


text \<open>
  On the workflow channel a payload that \<^verbatim>\<open>JSON.parse\<close> rejects is caught inside
  \<^verbatim>\<open>ws.onmessage\<close>: the handler logs it and returns with every bucket untouched.
\<close>

lemma workflow_parse_failure_logged:
  "parse raw = None \<Longrightarrow>
   ws_onmessage parse raw h =
     h\<lparr>error_log := error_log h @ [(''Error parsing WebSocket message:'', Some SyntaxError)]\<rparr>"
  by (simp add: ws_onmessage_def console_error_msg_def)

text \<open>
  On the notification channel the same payload throws out of the handler.
\<close>

lemma notification_parse_failure:
  "parse raw = None \<Longrightarrow> main_onmessage parse raw = Inl SyntaxError"
  by (simp add: main_onmessage_def)

text \<open>
  C3. A parse failure is contained on the workflow channel and not on the notification
  channel: \<^verbatim>\<open>AppState.websocket.onmessage\<close> calls \<^verbatim>\<open>JSON.parse(event.data)\<close> outside
  any \<^verbatim>\<open>try\<close>, so on the payload \<^verbatim>\<open>not json\<close> the \<^verbatim>\<open>SyntaxError\<close> leaves the
  handler, neither caught nor logged by it.
\<close>

theorem notification_parse_failure_escapes:
  "main_onmessage sample_parse ''not json'' = Inl SyntaxError"
  by (simp add: main_onmessage_def sample_parse_def)

subsection \<open>Dispatch on the workflow channel\<close>

text \<open>
  C4. A payload that parses to \<open>d\<close> is appended to \<^verbatim>\<open>messages\<close>, and then exactly the
  bucket of its \<^verbatim>\<open>type\<close> changes: \<^verbatim>\<open>workflow_update\<close> replaces \<^verbatim>\<open>workflowStatus\<close>,
  \<^verbatim>\<open>argument_generated\<close> and \<^verbatim>\<open>debate_turn\<close> are appended to their sequences,
  \<^verbatim>\<open>feedback_ready\<close> replaces \<^verbatim>\<open>feedback\<close>; the rest of the hook's state is as before.
  With any other \<^verbatim>\<open>type\<close> (or none, or a payload that is not an object) the message
  is appended to \<^verbatim>\<open>messages\<close> only and the four typed projections are unchanged.
\<close>

theorem message_dispatch:
  assumes "parse raw = Some d"
  shows "(get_prop d ''type'' = Inr (Some (JStr ''workflow_update'')) \<longrightarrow>
            ws_onmessage parse raw h = h\<lparr>messages := messages h @ [d], workflowStatus := Some d\<rparr>)
       \<and> (get_prop d ''type'' = Inr (Some (JStr ''argument_generated'')) \<longrightarrow>
            ws_onmessage parse raw h =
              h\<lparr>messages := messages h @ [d], wsArguments := wsArguments h @ [d]\<rparr>)
       \<and> (get_prop d ''type'' = Inr (Some (JStr ''debate_turn'')) \<longrightarrow>
            ws_onmessage parse raw h =
              h\<lparr>messages := messages h @ [d], debateTurns := debateTurns h @ [d]\<rparr>)
       \<and> (get_prop d ''type'' = Inr (Some (JStr ''feedback_ready'')) \<longrightarrow>
            ws_onmessage parse raw h = h\<lparr>messages := messages h @ [d], feedback := Some d\<rparr>)
       \<and> (get_prop d ''type'' \<noteq> Inr (Some (JStr ''workflow_update'')) \<and>
          get_prop d ''type'' \<noteq> Inr (Some (JStr ''argument_generated'')) \<and>
          get_prop d ''type'' \<noteq> Inr (Some (JStr ''debate_turn'')) \<and>
          get_prop d ''type'' \<noteq> Inr (Some (JStr ''feedback_ready'')) \<longrightarrow>
            messages (ws_onmessage parse raw h) = messages h @ [d] \<and>
            workflowStatus (ws_onmessage parse raw h) = workflowStatus h \<and>
            wsArguments (ws_onmessage parse raw h) = wsArguments h \<and>
            debateTurns (ws_onmessage parse raw h) = debateTurns h \<and>
            feedback (ws_onmessage parse raw h) = feedback h)"
  using assms
  by (auto simp: ws_onmessage_def console_error_msg_def Let_def split: sum.splits)

theorem message_dispatch_witness:
  \<open>sample_parse ''{"type":"heartbeat"}'' = Some (JObj [(''type'', JStr ''heartbeat'')])
   \<and> messages (ws_onmessage sample_parse ''{"type":"heartbeat"}'' open_page) =
       [JObj [(''type'', JStr ''heartbeat'')]]
   \<and> workflowStatus (ws_onmessage sample_parse ''{"type":"heartbeat"}'' open_page) = None
   \<and> wsArguments (ws_onmessage sample_parse ''{"type":"heartbeat"}'' open_page) = []
   \<and> debateTurns (ws_onmessage sample_parse ''{"type":"heartbeat"}'' open_page) = []
   \<and> feedback (ws_onmessage sample_parse ''{"type":"heartbeat"}'' open_page) = None
   \<and> sample_parse ''null'' = Some JNull
   \<and> messages (ws_onmessage sample_parse ''null'' open_page) = [JNull]
   \<and> wsArguments (ws_onmessage sample_parse ''null'' open_page) = []\<close>
proof -
  have p: \<open>sample_parse ''{"type":"heartbeat"}'' = Some (JObj [(''type'', JStr ''heartbeat'')])\<close>
    and n: "sample_parse ''null'' = Some JNull"
    by (simp_all add: sample_parse_def)
  have st: "messages open_page = []" "workflowStatus open_page = None" "wsArguments open_page = []"
    "debateTurns open_page = []" "feedback open_page = None"
    by (simp_all add: open_page_def ws_onopen_def connect_def new_WebSocket_def initial_page_def
          clearTimeout_def Let_def)
  from message_dispatch [where parse=sample_parse and h=open_page, OF p]
    message_dispatch [where parse=sample_parse and h=open_page, OF n] p n st
  show ?thesis by simp
qed

subsection \<open>Reconnection\<close>


lemma timers_created_connect [simp]: "timers_created (connect w h) = timers_created h"
  by (simp add: connect_def new_WebSocket_def Let_def split: option.splits)

lemma timers_created_step:
  "timers_created (page_step parse wid p ev) =
     timers_created p + (if ev = SocketEvent Closed then 1 else 0)"
proof (cases ev)
  case (SocketEvent e)
  then show ?thesis
    by (cases e)
       (simp_all add: ws_onopen_def ws_onmessage_def ws_onerror_def ws_onclose_def clearTimeout_def
          setTimeout_def console_error_msg_def Let_def split: option.splits sum.splits)
next
  case (TimerFires h)
  then show ?thesis
    by (simp add: fire_timer_def Let_def split: option.splits page_action.splits)
next
  case (Unmount c)
  then show ?thesis
    by (simp add: teardown_def cleanup_def clearTimeout_def socket_close_def Let_def
        split: option.splits)
qed

lemma timers_created_run:
  "timers_created (foldl (page_step parse wid) p evs) =
     timers_created p + count_list evs (SocketEvent Closed)"
  by (induction evs arbitrary: p) (simp_all add: timers_created_step)

lemma timers_created_main_step:
  "timers_created (main_step m ev) =
     timers_created m + (if ev = MainSocketEvent MainClosed then 1 else 0)"
proof (cases ev)
  case (MainSocketEvent e)
  then show ?thesis
    by (cases e) (simp_all add: main_onerror_def main_onclose_def setTimeout_def
          console_error_msg_def Let_def)
next
  case (MainTimerFires h)
  then show ?thesis
    by (simp add: initializeWebSocket_def new_WebSocket_def Let_def split: option.splits)
qed

lemma timers_created_main_run:
  "timers_created (foldl main_step m evs) =
     timers_created m + count_list evs (MainSocketEvent MainClosed)"
  by (induction evs arbitrary: m) (simp_all add: timers_created_main_step)

lemma find_append_fresh: "(\<forall>x \<in> set xs. \<not> P x) \<Longrightarrow> P y \<Longrightarrow> find P (xs @ [y]) = Some y"
  by (induction xs) simp_all

lemma reconnect_fires:
  fixes p :: page
  assumes wid: "wid \<noteq> []" and fresh: "\<forall>x \<in> set (timers p). timer_id x \<le> timers_created p"
  shows "sockets (fire_timer (Suc (timers_created p)) (ws_onclose wid p)) =
           sockets p @ [\<lparr>ws_id = length (sockets p), ws_url = ''ws://localhost:8000/ws/'' @ wid,
                         ws_closing = False\<rparr>]"
proof -
  let ?t = "\<lparr>timer_id = Suc (timers_created p), delay = 3000, action = Reconnect wid\<rparr>"
  have tm: "timers (ws_onclose wid p) = timers p @ [?t]"
    and sk: "sockets (ws_onclose wid p) = sockets p"
    by (simp_all add: ws_onclose_def setTimeout_def Let_def)
  from fresh have "\<forall>x \<in> set (timers p). \<not> timer_id x = Suc (timers_created p)" by auto
  then have "find (\<lambda>x. timer_id x = Suc (timers_created p)) (timers p @ [?t]) = Some ?t"
    by (rule find_append_fresh) simp
  with tm sk wid show ?thesis
    by (simp add: fire_timer_def connect_def new_WebSocket_def Let_def)
qed

lemma reinitialize_fires:
  assumes fresh: "\<forall>x \<in> set (timers m). timer_id x \<le> timers_created m"
  shows "sockets (main_step (main_onclose m) (MainTimerFires (Suc (timers_created m)))) =
           sockets m @ [\<lparr>ws_id = length (sockets m), ws_url = ''ws://localhost:8000/ws'',
                         ws_closing = False\<rparr>]"
proof -
  let ?t = "\<lparr>timer_id = Suc (timers_created m), delay = 5000, action = Reinitialize\<rparr>"
  have tm: "timers (main_onclose m) = timers m @ [?t]"
    and sk: "sockets (main_onclose m) = sockets m"
    by (simp_all add: main_onclose_def setTimeout_def Let_def)
  from fresh have "\<forall>x \<in> set (timers m). \<not> timer_id x = Suc (timers_created m)" by auto
  then have "find (\<lambda>x. timer_id x = Suc (timers_created m)) (timers m @ [?t]) = Some ?t"
    by (rule find_append_fresh) simp
  with tm sk show ?thesis
    by (simp add: initializeWebSocket_def new_WebSocket_def Let_def)
qed


lemma end_events_workflow:
  fixes p :: page
  shows "foldl (ws_handle parse wid) p (end_events e) =
           p\<lparr>isConnected := False, socket := None,
             timers := timers p @ [\<lparr>timer_id = Suc (timers_created p), delay = 3000,
                                   action = Reconnect wid\<rparr>],
             timers_created := Suc (timers_created p),
             reconnectTimeoutRef := Some (Suc (timers_created p)),
             error_log := error_log p @ (if e = Failed then [(''WebSocket error:'', None)] else [])\<rparr>"
  by (cases e) (simp_all add: ws_onclose_def ws_onerror_def console_error_msg_def setTimeout_def Let_def)

lemma end_events_notification:
  "foldl main_handle m (main_end_events e) =
           m\<lparr>timers := timers m @ [\<lparr>timer_id = Suc (timers_created m), delay = 5000,
                                   action = Reinitialize\<rparr>],
             timers_created := Suc (timers_created m),
             error_log := error_log m @ (if e = Failed then [(''WebSocket error:'', None)] else [])\<rparr>"
  by (cases e) (simp_all add: main_onclose_def main_onerror_def console_error_msg_def setTimeout_def Let_def)

text \<open>
  One round: the connection opens and fails, and the timer of its close event fires.
\<close>

lemma failing_round:
  fixes p :: page
  assumes wid: "wid \<noteq> []" and fresh: "\<forall>x \<in> set (timers p). timer_id x \<le> timers_created p"
  shows "timers_created (foldl (page_step parse wid) p
            [SocketEvent Opened, SocketEvent Errored, SocketEvent Closed,
             TimerFires (Suc (timers_created p))]) = Suc (timers_created p)"
    and "length (sockets (foldl (page_step parse wid) p
            [SocketEvent Opened, SocketEvent Errored, SocketEvent Closed,
             TimerFires (Suc (timers_created p))])) = Suc (length (sockets p))"
    and "\<forall>x \<in> set (timers (foldl (page_step parse wid) p
            [SocketEvent Opened, SocketEvent Errored, SocketEvent Closed,
             TimerFires (Suc (timers_created p))])). timer_id x \<le> Suc (timers_created p)"
proof -
  let ?q = "ws_onerror (ws_onopen p)"
  have q: "timers_created ?q = timers_created p" "sockets ?q = sockets p"
    "set (timers ?q) \<subseteq> set (timers p)"
    by (auto simp: ws_onerror_def ws_onopen_def console_error_msg_def clearTimeout_def Let_def
        split: option.splits)
  with fresh have fq: "\<forall>x \<in> set (timers ?q). timer_id x \<le> timers_created ?q" by auto
  have run: "foldl (page_step parse wid) p
            [SocketEvent Opened, SocketEvent Errored, SocketEvent Closed,
             TimerFires (Suc (timers_created p))] =
            fire_timer (Suc (timers_created ?q)) (ws_onclose wid ?q)"
    using q(1) by simp
  from reconnect_fires [OF wid fq] q(2)
  show "length (sockets (foldl (page_step parse wid) p
            [SocketEvent Opened, SocketEvent Errored, SocketEvent Closed,
             TimerFires (Suc (timers_created p))])) = Suc (length (sockets p))"
    unfolding run by simp
  have tc: "timers_created (fire_timer h x) = timers_created x" for h and x :: page
    by (simp add: fire_timer_def Let_def split: option.splits page_action.splits)
  show "timers_created (foldl (page_step parse wid) p
            [SocketEvent Opened, SocketEvent Errored, SocketEvent Closed,
             TimerFires (Suc (timers_created p))]) = Suc (timers_created p)"
    unfolding run tc using q(1) by (simp add: ws_onclose_def setTimeout_def Let_def)
  have sub: "set (timers (fire_timer h x)) \<subseteq> set (timers x)" for h and x :: page
    by (auto simp: fire_timer_def connect_def new_WebSocket_def Let_def
        split: option.splits page_action.splits)
  have "\<forall>x \<in> set (timers (ws_onclose wid ?q)). timer_id x \<le> Suc (timers_created p)"
    using fq q(1) by (auto simp: ws_onclose_def setTimeout_def Let_def)
  with sub [of "Suc (timers_created ?q)" "ws_onclose wid ?q"]
  show "\<forall>x \<in> set (timers (foldl (page_step parse wid) p
            [SocketEvent Opened, SocketEvent Errored, SocketEvent Closed,
             TimerFires (Suc (timers_created p))])). timer_id x \<le> Suc (timers_created p)"
    unfolding run by blast
qed

lemma failing_rounds_reconnect:
  fixes p :: page
  shows "wid \<noteq> [] \<Longrightarrow> \<forall>x \<in> set (timers p). timer_id x \<le> timers_created p \<Longrightarrow>
   timers_created (foldl (page_step parse wid) p (failing_rounds (timers_created p) n)) =
     timers_created p + n \<and>
   length (sockets (foldl (page_step parse wid) p (failing_rounds (timers_created p) n))) =
     length (sockets p) + n"
proof (induction n arbitrary: p)
  case 0
  then show ?case by simp
next
  case (Suc n)
  let ?p1 = "foldl (page_step parse wid) p
            [SocketEvent Opened, SocketEvent Errored, SocketEvent Closed,
             TimerFires (Suc (timers_created p))]"
  note r = failing_round [OF Suc.prems, of parse]
  from r(3) r(1) have f1: "\<forall>x \<in> set (timers ?p1). timer_id x \<le> timers_created ?p1" by simp
  have run: "foldl (page_step parse wid) p (failing_rounds (timers_created p) (Suc n)) =
             foldl (page_step parse wid) ?p1 (failing_rounds (timers_created ?p1) n)"
    unfolding r(1) by simp
  from Suc.IH [OF Suc.prems(1) f1] r(1,2) show ?case unfolding run by simp
qed

lemma main_failing_round:
  assumes fresh: "\<forall>x \<in> set (timers m). timer_id x \<le> timers_created m"
  shows "timers_created (foldl main_step m
            [MainSocketEvent MainOpened, MainSocketEvent MainErrored, MainSocketEvent MainClosed,
             MainTimerFires (Suc (timers_created m))]) = Suc (timers_created m)"
    and "length (sockets (foldl main_step m
            [MainSocketEvent MainOpened, MainSocketEvent MainErrored, MainSocketEvent MainClosed,
             MainTimerFires (Suc (timers_created m))])) = Suc (length (sockets m))"
    and "\<forall>x \<in> set (timers (foldl main_step m
            [MainSocketEvent MainOpened, MainSocketEvent MainErrored, MainSocketEvent MainClosed,
             MainTimerFires (Suc (timers_created m))])). timer_id x \<le> Suc (timers_created m)"
proof -
  let ?q = "main_onerror m"
  have q: "timers_created ?q = timers_created m" "sockets ?q = sockets m" "timers ?q = timers m"
    by (simp_all add: main_onerror_def console_error_msg_def)
  with fresh have fq: "\<forall>x \<in> set (timers ?q). timer_id x \<le> timers_created ?q" by simp
  have run: "foldl main_step m
            [MainSocketEvent MainOpened, MainSocketEvent MainErrored, MainSocketEvent MainClosed,
             MainTimerFires (Suc (timers_created m))] =
            main_step (main_onclose ?q) (MainTimerFires (Suc (timers_created ?q)))"
    using q(1) by simp
  from reinitialize_fires [OF fq] q(2)
  show "length (sockets (foldl main_step m
            [MainSocketEvent MainOpened, MainSocketEvent MainErrored, MainSocketEvent MainClosed,
             MainTimerFires (Suc (timers_created m))])) = Suc (length (sockets m))"
    unfolding run by simp
  have tc: "timers_created (main_step x (MainTimerFires h)) = timers_created x" for h x
    by (simp add: initializeWebSocket_def new_WebSocket_def Let_def split: option.splits)
  show "timers_created (foldl main_step m
            [MainSocketEvent MainOpened, MainSocketEvent MainErrored, MainSocketEvent MainClosed,
             MainTimerFires (Suc (timers_created m))]) = Suc (timers_created m)"
    unfolding run tc using q(1) by (simp add: main_onclose_def setTimeout_def Let_def)
  have sub: "set (timers (main_step x (MainTimerFires h))) \<subseteq> set (timers x)" for h x
    by (auto simp: initializeWebSocket_def new_WebSocket_def Let_def split: option.splits)
  have "\<forall>x \<in> set (timers (main_onclose ?q)). timer_id x \<le> Suc (timers_created m)"
    using fq q(1) by (auto simp: main_onclose_def setTimeout_def Let_def)
  with sub [of "main_onclose ?q" "Suc (timers_created ?q)"]
  show "\<forall>x \<in> set (timers (foldl main_step m
            [MainSocketEvent MainOpened, MainSocketEvent MainErrored, MainSocketEvent MainClosed,
             MainTimerFires (Suc (timers_created m))])). timer_id x \<le> Suc (timers_created m)"
    unfolding run by blast
qed

lemma main_failing_rounds_reconnect:
  "\<forall>x \<in> set (timers m). timer_id x \<le> timers_created m \<Longrightarrow>
   timers_created (foldl main_step m (main_failing_rounds (timers_created m) n)) =
     timers_created m + n \<and>
   length (sockets (foldl main_step m (main_failing_rounds (timers_created m) n))) =
     length (sockets m) + n"
proof (induction n arbitrary: m)
  case 0
  then show ?case by simp
next
  case (Suc n)
  let ?m1 = "foldl main_step m
            [MainSocketEvent MainOpened, MainSocketEvent MainErrored, MainSocketEvent MainClosed,
             MainTimerFires (Suc (timers_created m))]"
  note r = main_failing_round [OF Suc.prems]
  from r(3) r(1) have f1: "\<forall>x \<in> set (timers ?m1). timer_id x \<le> timers_created ?m1" by simp
  have run: "foldl main_step m (main_failing_rounds (timers_created m) (Suc n)) =
             foldl main_step ?m1 (main_failing_rounds (timers_created ?m1) n)"
    unfolding r(1) by simp
  from Suc.IH [OF f1] r(1,2) show ?case unfolding run by simp
qed

lemma end_fires:
  fixes p :: page
  assumes wid: "wid \<noteq> []" and fresh: "\<forall>x \<in> set (timers p). timer_id x \<le> timers_created p"
  shows "sockets (fire_timer (Suc (timers_created p)) (foldl (ws_handle parse wid) p (end_events e))) =
           sockets p @ [\<lparr>ws_id = length (sockets p), ws_url = ''ws://localhost:8000/ws/'' @ wid,
                         ws_closing = False\<rparr>]"
proof (cases e)
  case Failed
  let ?q = "ws_onerror p"
  have q: "timers_created ?q = timers_created p" "sockets ?q = sockets p" "timers ?q = timers p"
    by (simp_all add: ws_onerror_def console_error_msg_def)
  with fresh have fq: "\<forall>x \<in> set (timers ?q). timer_id x \<le> timers_created ?q" by simp
  from reconnect_fires [OF wid fq] q Failed show ?thesis by simp
next
  case Ended
  with reconnect_fires [OF wid fresh] show ?thesis by simp
qed

lemma main_end_fires:
  assumes fresh: "\<forall>x \<in> set (timers m). timer_id x \<le> timers_created m"
  shows "sockets (main_step (foldl main_handle m (main_end_events e))
                    (MainTimerFires (Suc (timers_created m)))) =
           sockets m @ [\<lparr>ws_id = length (sockets m), ws_url = ''ws://localhost:8000/ws'',
                         ws_closing = False\<rparr>]"
proof (cases e)
  case Failed
  let ?q = "main_onerror m"
  have q: "timers_created ?q = timers_created m" "sockets ?q = sockets m" "timers ?q = timers m"
    by (simp_all add: main_onerror_def console_error_msg_def)
  with fresh have fq: "\<forall>x \<in> set (timers ?q). timer_id x \<le> timers_created ?q" by simp
  from reinitialize_fires [OF fq] q Failed show ?thesis by simp
next
  case Ended
  with reinitialize_fires [OF fresh] show ?thesis by simp
qed


text \<open>
  C5. The end of a connection, be it a failure (reported as \<^verbatim>\<open>error\<close> and then \<^verbatim>\<open>close\<close>) or
  an orderly close, leaves the workflow channel disconnected, without socket, and with
  \<^verbatim>\<open>connect()\<close> scheduled 3000 ms later; on the notification channel it leaves
  \<^verbatim>\<open>initializeWebSocket\<close> scheduled 5000 ms later. This holds in every state of the page,
  the open state included: the handlers read no state, so the delay is the same
  constant every time (no backoff, no jitter) and there is no retry counter. Over any
  sequence of socket events, timer firings and teardowns the number of reconnection
  timers created is the number of close events. When the scheduled timer fires (its
  handle being fresh, as the handles of \<^verbatim>\<open>setTimeout\<close> are), a new socket is opened for
  the same URL; and over any number \<open>n\<close> of rounds in which the connection opens, fails
  and the timer fires, \<open>n\<close> reconnections are scheduled and \<open>n\<close> sockets opened.
\<close>

theorem connection_end_schedules_reconnect:
  fixes p :: page and m :: main_app
  shows "foldl (ws_handle parse wid) p (end_events e) =
           p\<lparr>isConnected := False, socket := None,
             timers := timers p @ [\<lparr>timer_id = Suc (timers_created p), delay = 3000,
                                   action = Reconnect wid\<rparr>],
             timers_created := Suc (timers_created p),
             reconnectTimeoutRef := Some (Suc (timers_created p)),
             error_log := error_log p @ (if e = Failed then [(''WebSocket error:'', None)] else [])\<rparr>
       \<and> foldl main_handle m (main_end_events e) =
           m\<lparr>timers := timers m @ [\<lparr>timer_id = Suc (timers_created m), delay = 5000,
                                   action = Reinitialize\<rparr>],
             timers_created := Suc (timers_created m),
             error_log := error_log m @ (if e = Failed then [(''WebSocket error:'', None)] else [])\<rparr>
       \<and> timers_created (foldl (page_step parse wid) p evs) =
           timers_created p + count_list evs (SocketEvent Closed)
       \<and> timers_created (foldl main_step m mevs) =
           timers_created m + count_list mevs (MainSocketEvent MainClosed)
       \<and> (wid \<noteq> [] \<and> (\<forall>x \<in> set (timers p). timer_id x \<le> timers_created p) \<longrightarrow>
            sockets (fire_timer (Suc (timers_created p))
                       (foldl (ws_handle parse wid) p (end_events e))) =
              sockets p @ [\<lparr>ws_id = length (sockets p),
                            ws_url = ''ws://localhost:8000/ws/'' @ wid, ws_closing = False\<rparr>] \<and>
            timers_created (foldl (page_step parse wid) p (failing_rounds (timers_created p) n)) =
              timers_created p + n \<and>
            length (sockets (foldl (page_step parse wid) p (failing_rounds (timers_created p) n))) =
              length (sockets p) + n)
       \<and> ((\<forall>x \<in> set (timers m). timer_id x \<le> timers_created m) \<longrightarrow>
            sockets (main_step (foldl main_handle m (main_end_events e))
                       (MainTimerFires (Suc (timers_created m)))) =
              sockets m @ [\<lparr>ws_id = length (sockets m), ws_url = ''ws://localhost:8000/ws'',
                            ws_closing = False\<rparr>] \<and>
            timers_created (foldl main_step m (main_failing_rounds (timers_created m) n)) =
              timers_created m + n \<and>
            length (sockets (foldl main_step m (main_failing_rounds (timers_created m) n))) =
              length (sockets m) + n)"
proof -
  have w: "wid \<noteq> [] \<and> (\<forall>x \<in> set (timers p). timer_id x \<le> timers_created p) \<longrightarrow>
            sockets (fire_timer (Suc (timers_created p))
                       (foldl (ws_handle parse wid) p (end_events e))) =
              sockets p @ [\<lparr>ws_id = length (sockets p),
                            ws_url = ''ws://localhost:8000/ws/'' @ wid, ws_closing = False\<rparr>] \<and>
            timers_created (foldl (page_step parse wid) p (failing_rounds (timers_created p) n)) =
              timers_created p + n \<and>
            length (sockets (foldl (page_step parse wid) p (failing_rounds (timers_created p) n))) =
              length (sockets p) + n"
    using end_fires [of wid p parse e] failing_rounds_reconnect [of wid p parse n] by blast
  have n: "(\<forall>x \<in> set (timers m). timer_id x \<le> timers_created m) \<longrightarrow>
            sockets (main_step (foldl main_handle m (main_end_events e))
                       (MainTimerFires (Suc (timers_created m)))) =
              sockets m @ [\<lparr>ws_id = length (sockets m), ws_url = ''ws://localhost:8000/ws'',
                            ws_closing = False\<rparr>] \<and>
            timers_created (foldl main_step m (main_failing_rounds (timers_created m) n)) =
              timers_created m + n \<and>
            length (sockets (foldl main_step m (main_failing_rounds (timers_created m) n))) =
              length (sockets m) + n"
    using main_end_fires [of m e] main_failing_rounds_reconnect [of m n] by blast
  show ?thesis
    by (rule conjI [OF end_events_workflow conjI [OF end_events_notification
          conjI [OF timers_created_run conjI [OF timers_created_main_run conjI [OF w n]]]]])
qed

theorem connection_end_schedules_reconnect_witness:
  "isConnected open_page
   \<and> \<not> isConnected (foldl (ws_handle sample_parse ''demo-workflow-123'') open_page (end_events Failed))
   \<and> timers (foldl (ws_handle sample_parse ''demo-workflow-123'') open_page (end_events Failed)) =
       [\<lparr>timer_id = 1, delay = 3000, action = Reconnect ''demo-workflow-123''\<rparr>]
   \<and> timers (foldl (ws_handle sample_parse ''demo-workflow-123'') open_page (end_events Ended)) =
       [\<lparr>timer_id = 1, delay = 3000, action = Reconnect ''demo-workflow-123''\<rparr>]
   \<and> timers (foldl main_handle (initializeWebSocket initial_main) (main_end_events Failed)) =
       [\<lparr>timer_id = 1, delay = 5000, action = Reinitialize\<rparr>]
   \<and> map ws_url (sockets (fire_timer 1
         (foldl (ws_handle sample_parse ''demo-workflow-123'') open_page (end_events Failed)))) =
       [''ws://localhost:8000/ws/demo-workflow-123'', ''ws://localhost:8000/ws/demo-workflow-123'']
   \<and> timers_created
        (foldl (page_step sample_parse ''demo-workflow-123'') open_page (failing_rounds 0 3)) = 3
   \<and> length (sockets
        (foldl (page_step sample_parse ''demo-workflow-123'') open_page (failing_rounds 0 3))) = 4"
proof -
  have st: "timers open_page = []" "timers_created open_page = 0"
    "timers (initializeWebSocket initial_main) = []"
    "timers_created (initializeWebSocket initial_main) = 0"
    "isConnected open_page"
    by (simp_all add: open_page_def ws_onopen_def connect_def new_WebSocket_def initial_page_def
          clearTimeout_def initializeWebSocket_def initial_main_def Let_def)
  have sk: "sockets open_page =
      [\<lparr>ws_id = 0, ws_url = ''ws://localhost:8000/ws/demo-workflow-123'', ws_closing = False\<rparr>]"
    by (simp add: open_page_def ws_onopen_def connect_def new_WebSocket_def initial_page_def
          clearTimeout_def Let_def)
  note f = connection_end_schedules_reconnect [of sample_parse "''demo-workflow-123''" open_page
      Failed "initializeWebSocket initial_main" "[]" "[]" 3]
  note g = connection_end_schedules_reconnect [of sample_parse "''demo-workflow-123''" open_page
      Ended "initializeWebSocket initial_main" "[]" "[]" 3]
  have a: "\<not> isConnected (foldl (ws_handle sample_parse ''demo-workflow-123'') open_page (end_events Failed))
         \<and> timers (foldl (ws_handle sample_parse ''demo-workflow-123'') open_page (end_events Failed)) =
            [\<lparr>timer_id = 1, delay = 3000, action = Reconnect ''demo-workflow-123''\<rparr>]"
    unfolding f [THEN conjunct1] using st by simp
  have b: "timers (foldl (ws_handle sample_parse ''demo-workflow-123'') open_page (end_events Ended)) =
            [\<lparr>timer_id = 1, delay = 3000, action = Reconnect ''demo-workflow-123''\<rparr>]"
    unfolding g [THEN conjunct1] using st by simp
  have c: "timers (foldl main_handle (initializeWebSocket initial_main) (main_end_events Failed)) =
       [\<lparr>timer_id = 1, delay = 5000, action = Reinitialize\<rparr>]"
    unfolding f [THEN conjunct2, THEN conjunct1] using st by simp
  have fresh: "''demo-workflow-123'' \<noteq> [] \<and>
      (\<forall>x \<in> set (timers open_page). timer_id x \<le> timers_created open_page)"
    using st by simp
  note h = f [THEN conjunct2, THEN conjunct2, THEN conjunct2, THEN conjunct2, THEN conjunct1,
              rule_format, OF fresh]
  have d: "map ws_url (sockets (fire_timer 1
         (foldl (ws_handle sample_parse ''demo-workflow-123'') open_page (end_events Failed)))) =
       [''ws://localhost:8000/ws/demo-workflow-123'', ''ws://localhost:8000/ws/demo-workflow-123'']"
    using h [THEN conjunct1] st sk by simp
  have e: "timers_created
        (foldl (page_step sample_parse ''demo-workflow-123'') open_page (failing_rounds 0 3)) = 3"
    using h [THEN conjunct2, THEN conjunct1] st by simp
  have i: "length (sockets
        (foldl (page_step sample_parse ''demo-workflow-123'') open_page (failing_rounds 0 3))) = 4"
    using h [THEN conjunct2, THEN conjunct2] st sk by simp
  from st(5) a b c d e i show ?thesis by blast
qed


subsection \<open>The open callback and the pending reconnection\<close>


lemma find_filter_none: "find (\<lambda>x. f x = t) (filter (\<lambda>x. f x \<noteq> t) xs) = None"
  by (induction xs) simp_all











section \<open>Properties of the fallback simulator and of teardown\<close>


lemma start_backend_throws:
  "fst (start_backend r p) \<noteq> None \<Longrightarrow> start_backend r q = (fst (start_backend r p), q)"
  by (auto simp: start_backend_def split: create_result.splits sum.splits execute_result.splits)

lemma str_includes_chars: "str_includes s t \<Longrightarrow> set t \<subseteq> set s"
proof (induction s)
  case Nil
  then show ?case by simp
next
  case (Cons c cs)
  show ?case
  proof (cases "startsWith (c # cs) t")
    case True
    then have "t = take (length t) (c # cs)" by (simp add: startsWith_def)
    then have "set t \<subseteq> set (c # cs)" by (metis set_take_subset)
    then show ?thesis .
  next
    case False
    with Cons show ?thesis by auto
  qed
qed

lemma lower_char_t: "lower_char c = CHR ''t'' \<Longrightarrow> (of_char c :: nat) \<notin> {9, 10, 11, 12, 13, 32, 160}"
  by (auto simp: lower_char_def Let_def split: if_splits)

lemma phrase_not_blank:
  assumes "str_includes (toLowerCase userInput) ''texting while walking''"
  shows "\<not> blank userInput"
proof -
  from str_includes_chars [OF assms] have "CHR ''t'' \<in> set (toLowerCase userInput)" by simp
  then obtain c where c: "c \<in> set userInput" and "lower_char c = CHR ''t''"
    by (auto simp: toLowerCase_def)
  then have "(of_char c :: nat) \<notin> {9, 10, 11, 12, 13, 32, 160}" by (rule_tac lower_char_t)
  with c show ?thesis by (auto simp: blank_def list_all_iff)
qed

lemma simulate_texting:
  assumes "str_includes (toLowerCase userInput) ''texting while walking''"
  shows "simulate rd Single userInput p =
           Inr (p\<lparr>useMockData := True,
                  timers := timers p @
                    [\<lparr>timer_id = timers_created p + 1, delay = 1000,
                      action = PushMockArgument (personalInjury_argument1 rd)\<rparr>,
                     \<lparr>timer_id = timers_created p + 2, delay = 2000,
                      action = PushMockArgument (personalInjury_argument2 rd)\<rparr>,
                     \<lparr>timer_id = timers_created p + 3, delay = 3000,
                      action = SetMockFeedback personalInjury_feedback\<rparr>],
                  timers_created := timers_created p + 3\<rparr>)"
  using assms
  by (simp add: simulate_def getMockResponse_def schedule_each_def schedule_feedback_def
        setTimeout_def Let_def enumerate_simps)


text \<open>
  C6. In single mode, when the create request fails and the input contains
  \<^verbatim>\<open>texting while walking\<close> in any letter case, \<^verbatim>\<open>handleStartWorkflow\<close> falls back to
  the personal-injury scenario: it schedules that scenario's first argument at 1000 ms,
  its second argument at 2000 ms and its feedback at 3000 ms, and nothing else.
\<close>

theorem fallback_texting_while_walking:
  assumes phrase: "str_includes (toLowerCase userInput) ''texting while walking''"
    and failed: "fst (start_backend r p) \<noteq> None"
  shows "handleStartWorkflow rd Single userInput r p =
           Inr (p\<lparr>workflowStarted := True, useMockData := True, mockArguments := [],
                  mockDebateTurns := [], mockFeedback := None,
                  timers := timers p @
                    [\<lparr>timer_id = timers_created p + 1, delay = 1000,
                      action = PushMockArgument (personalInjury_argument1 rd)\<rparr>,
                     \<lparr>timer_id = timers_created p + 2, delay = 2000,
                      action = PushMockArgument (personalInjury_argument2 rd)\<rparr>,
                     \<lparr>timer_id = timers_created p + 3, delay = 3000,
                      action = SetMockFeedback personalInjury_feedback\<rparr>],
                  timers_created := timers_created p + 3\<rparr>)"
proof -
  let ?p1 = "p\<lparr>workflowStarted := True, useMockData := False, mockArguments := [],
               mockDebateTurns := [], mockFeedback := None\<rparr>"
  from failed obtain e where e: "fst (start_backend r p) = Some e" by auto
  with start_backend_throws [OF failed, of ?p1] have sb: "start_backend r ?p1 = (Some e, ?p1)"
    by simp
  have "handleStartWorkflow rd Single userInput r p = simulate rd Single userInput ?p1"
    using phrase_not_blank [OF phrase] sb by (simp add: handleStartWorkflow_def Let_def)
  then show ?thesis unfolding simulate_texting [OF phrase] by simp
qed

lemma phrase_lower:
  "str_includes (toLowerCase ''texting while walking'') ''texting while walking''"
  by (simp add: toLowerCase_def lower_char_def startsWith_def)

theorem fallback_texting_while_walking_witness:
  "str_includes (toLowerCase ''texting while walking'') ''texting while walking''
   \<and> fst (start_backend CreateRejected initial_page) \<noteq> None
   \<and> map_sum id timers
        (handleStartWorkflow sample_readings Single ''texting while walking'' CreateRejected
           initial_page) =
       Inr [\<lparr>timer_id = 1, delay = 1000,
             action = PushMockArgument (personalInjury_argument1 sample_readings)\<rparr>,
            \<lparr>timer_id = 2, delay = 2000,
             action = PushMockArgument (personalInjury_argument2 sample_readings)\<rparr>,
            \<lparr>timer_id = 3, delay = 3000, action = SetMockFeedback personalInjury_feedback\<rparr>]"
proof -
  have failed: "fst (start_backend CreateRejected initial_page) \<noteq> None"
    by (simp add: start_backend_def)
  have st: "timers initial_page = []" "timers_created initial_page = 0"
    by (simp_all add: initial_page_def)
  show ?thesis
    unfolding fallback_texting_while_walking [OF phrase_lower failed, of sample_readings]
    using phrase_lower failed st by simp
qed

lemma fallback_page_eq:
  "fallback_page =
     initial_page\<lparr>workflowStarted := True, useMockData := True,
       timers :=
         [\<lparr>timer_id = 1, delay = 1000,
           action = PushMockArgument (personalInjury_argument1 sample_readings)\<rparr>,
          \<lparr>timer_id = 2, delay = 2000,
           action = PushMockArgument (personalInjury_argument2 sample_readings)\<rparr>,
          \<lparr>timer_id = 3, delay = 3000, action = SetMockFeedback personalInjury_feedback\<rparr>],
       timers_created := 3\<rparr>"
proof -
  have sb: "start_backend CreateRejected q = (Some NetworkError, q)" for q
    by (simp add: start_backend_def)
  have "handleStartWorkflow sample_readings Single ''texting while walking'' CreateRejected
          initial_page =
        simulate sample_readings Single ''texting while walking''
          (initial_page\<lparr>workflowStarted := True, useMockData := False, mockArguments := [],
                         mockDebateTurns := [], mockFeedback := None\<rparr>)"
    using phrase_not_blank [OF phrase_lower] sb by (simp add: handleStartWorkflow_def Let_def)
  then show ?thesis
    unfolding fallback_page_def simulate_texting [OF phrase_lower]
    by (simp add: initial_page_def)
qed

text \<open>
  The hook's cleanup runs while the simulation is under way (the fallback switches the
  workflow id off; the page stays mounted). The simulator's three timers are still
  pending afterwards, and the first one appends its argument when it fires. On the
  connection side the cleanup's closure holds no socket (it captured \<^verbatim>\<open>socket\<close> before
  \<^verbatim>\<open>setSocket\<close> took effect), so the live socket stays open: a message it delivers after
  the teardown is appended to the log, and when it closes, \<^verbatim>\<open>ws.onclose\<close> schedules a
  reconnection whose firing opens a second socket. The same reconnection is scheduled
  when the closure does hold the socket and closes it.
\<close>

theorem teardown_leaves_timers_counterexample:
  \<open>map delay (timers (teardown None fallback_page)) = [1000, 2000, 3000]
   \<and> mockArguments (teardown None fallback_page) = []
   \<and> mockArguments (fire_timer 1 (teardown None fallback_page)) =
       [personalInjury_argument1 sample_readings]
   \<and> messages (ws_onmessage sample_parse ''{"type":"heartbeat"}'' (teardown None open_page)) =
       [JObj [(''type'', JStr ''heartbeat'')]]
   \<and> timers (ws_onclose ''demo-workflow-123'' (teardown None open_page)) =
       [\<lparr>timer_id = 1, delay = 3000, action = Reconnect ''demo-workflow-123''\<rparr>]
   \<and> map ws_url (sockets (fire_timer 1
         (ws_onclose ''demo-workflow-123'' (teardown None open_page)))) =
       [''ws://localhost:8000/ws/demo-workflow-123'', ''ws://localhost:8000/ws/demo-workflow-123'']
   \<and> timers (ws_onclose ''demo-workflow-123'' (teardown (Some 0) open_page)) =
       [\<lparr>timer_id = 1, delay = 3000, action = Reconnect ''demo-workflow-123''\<rparr>]\<close>
proof -
  have sim: "map delay (timers (teardown None fallback_page)) = [1000, 2000, 3000]
      \<and> mockArguments (teardown None fallback_page) = []
      \<and> mockArguments (fire_timer 1 (teardown None fallback_page)) =
         [personalInjury_argument1 sample_readings]"
    unfolding fallback_page_eq
    by (simp add: teardown_def cleanup_def initial_page_def fire_timer_def)
  have page: "teardown None open_page =
      initial_page\<lparr>sockets := [\<lparr>ws_id = 0, ws_url = ''ws://localhost:8000/ws/demo-workflow-123'',
                                  ws_closing = False\<rparr>],
                    socket := Some 0, isConnected := True\<rparr>"
    by (simp add: open_page_def ws_onopen_def connect_def new_WebSocket_def initial_page_def
          teardown_def cleanup_def Let_def)
  have msg: \<open>messages (ws_onmessage sample_parse ''{"type":"heartbeat"}'' (teardown None open_page)) =
       [JObj [(''type'', JStr ''heartbeat'')]]\<close>
    unfolding page by (simp add: ws_onmessage_def sample_parse_def initial_page_def Let_def)
  have conn: "timers (ws_onclose ''demo-workflow-123'' (teardown None open_page)) =
       [\<lparr>timer_id = 1, delay = 3000, action = Reconnect ''demo-workflow-123''\<rparr>]
     \<and> map ws_url (sockets (fire_timer 1
         (ws_onclose ''demo-workflow-123'' (teardown None open_page)))) =
       [''ws://localhost:8000/ws/demo-workflow-123'', ''ws://localhost:8000/ws/demo-workflow-123'']"
    unfolding page
    by (simp add: initial_page_def ws_onclose_def setTimeout_def fire_timer_def connect_def
          new_WebSocket_def Let_def)
  have closed: "timers (ws_onclose ''demo-workflow-123'' (teardown (Some 0) open_page)) =
       [\<lparr>timer_id = 1, delay = 3000, action = Reconnect ''demo-workflow-123''\<rparr>]"
    by (simp add: open_page_def ws_onopen_def connect_def new_WebSocket_def initial_page_def
          teardown_def cleanup_def socket_close_def ws_onclose_def setTimeout_def Let_def)
  from sim msg conn closed show ?thesis by (intro conjI) simp_all
qed

subsection \<open>Teardown\<close>


lemma close_marks1:
  "s \<in> set (map (\<lambda>s. if ws_id s = ws then s\<lparr>ws_closing := True\<rparr> else s) xs) \<Longrightarrow>
     ws_id s = ws \<Longrightarrow> ws_closing s"
proof (induction xs)
  case Nil
  then show ?case by simp
next
  case (Cons a xs)
  show ?case
  proof (cases "s \<in> set (map (\<lambda>s. if ws_id s = ws then s\<lparr>ws_closing := True\<rparr> else s) xs)")
    case True
    then show ?thesis using Cons.IH Cons.prems(2) by blast
  next
    case False
    with Cons.prems(1) have s: "s = (if ws_id a = ws then a\<lparr>ws_closing := True\<rparr> else a)"
      by (simp del: set_map)
    show ?thesis
    proof (cases "ws_id a = ws")
      case True
      with s show ?thesis by simp
    next
      case False
      with s Cons.prems(2) show ?thesis by simp
    qed
  qed
qed

lemma socket_close_marks:
  "\<forall>s \<in> set (sockets (socket_close ws p)). ws_id s = ws \<longrightarrow> ws_closing s"
proof -
  have eq: "sockets (socket_close ws p) =
          map (\<lambda>s. if ws_id s = ws then s\<lparr>ws_closing := True\<rparr> else s) (sockets p)"
    by (simp add: socket_close_def)
  show ?thesis
  proof (intro ballI impI)
    fix s
    assume "s \<in> set (sockets (socket_close ws p))" and "ws_id s = ws"
    then show "ws_closing s" unfolding eq by (rule close_marks1)
  qed
qed

lemma cleanup_timers:
  "timers (cleanup captured p) =
     filter (\<lambda>x. Some (timer_id x) \<noteq> reconnectTimeoutRef p) (timers p)"
  by (cases captured; cases "reconnectTimeoutRef p")
     (simp_all add: cleanup_def clearTimeout_def socket_close_def Let_def)

lemma cleanup_sockets:
  "sockets (cleanup captured p) =
     (case captured of None \<Rightarrow> sockets p | Some ws \<Rightarrow> sockets (socket_close ws p))"
  by (cases captured; cases "reconnectTimeoutRef p")
     (simp_all add: cleanup_def clearTimeout_def socket_close_def Let_def)


text \<open>
  C7, as the code has it. The hook's cleanup clears the timer whose handle
  \<^verbatim>\<open>reconnectTimeoutRef\<close> holds (it is no longer pending and its firing does nothing) and
  calls \<^verbatim>\<open>close()\<close> on the socket its closure captured, if any. It touches no other
  timer: the fallback simulator keeps no handle on the timers it schedules, and every one
  of them is still pending after teardown.
\<close>

theorem teardown_clears_tracked_timer:
  "timers (teardown captured p) =
     filter (\<lambda>x. Some (timer_id x) \<noteq> reconnectTimeoutRef p) (timers p)
   \<and> (reconnectTimeoutRef p = Some t \<longrightarrow>
        t \<notin> timer_id ` set (timers (teardown captured p)) \<and>
        fire_timer t (teardown captured p) = teardown captured p)
   \<and> (\<forall>s \<in> set (sockets (teardown captured p)). captured = Some (ws_id s) \<longrightarrow> ws_closing s)
   \<and> (\<forall>x \<in> set (timers p). Some (timer_id x) \<noteq> reconnectTimeoutRef p \<longrightarrow>
         x \<in> set (timers (teardown captured p)))"
proof -
  have tm: "timers (teardown captured p) =
              filter (\<lambda>x. Some (timer_id x) \<noteq> reconnectTimeoutRef p) (timers p)"
    unfolding teardown_def by (rule cleanup_timers)
  have fire: "reconnectTimeoutRef p = Some t \<longrightarrow>
                fire_timer t (teardown captured p) = teardown captured p"
  proof
    assume "reconnectTimeoutRef p = Some t"
    with tm have "find (\<lambda>x. timer_id x = t) (timers (teardown captured p)) = None"
      by (simp add: find_filter_none)
    then show "fire_timer t (teardown captured p) = teardown captured p"
      by (simp add: fire_timer_def)
  qed
  have closing: "\<forall>s \<in> set (sockets (teardown captured p)).
                   captured = Some (ws_id s) \<longrightarrow> ws_closing s"
  proof (cases captured)
    case None
    then show ?thesis by simp
  next
    case (Some ws)
    with socket_close_marks [of ws p] show ?thesis
      by (auto simp: teardown_def cleanup_sockets)
  qed
  have gone: "reconnectTimeoutRef p = Some t \<longrightarrow>
                t \<notin> timer_id ` set (timers (teardown captured p))"
    unfolding tm by auto
  have kept: "\<forall>x \<in> set (timers p). Some (timer_id x) \<noteq> reconnectTimeoutRef p \<longrightarrow>
                x \<in> set (timers (teardown captured p))"
    unfolding tm by simp
  from gone fire have mid: "reconnectTimeoutRef p = Some t \<longrightarrow>
        t \<notin> timer_id ` set (timers (teardown captured p)) \<and>
        fire_timer t (teardown captured p) = teardown captured p"
    by (intro impI conjI) (erule (1) mp)+
  show ?thesis by (rule conjI [OF tm conjI [OF mid conjI [OF closing kept]]])
qed

theorem teardown_clears_tracked_timer_witness:
  "reconnectTimeoutRef (ws_onclose ''demo-workflow-123'' open_page) = Some 1
   \<and> timers (teardown None (ws_onclose ''demo-workflow-123'' open_page)) = []
   \<and> fire_timer 1 (teardown None (ws_onclose ''demo-workflow-123'' open_page)) =
       teardown None (ws_onclose ''demo-workflow-123'' open_page)
   \<and> set (timers fallback_page) \<subseteq> set (timers (teardown None fallback_page))"
proof -
  have st: "reconnectTimeoutRef (ws_onclose ''demo-workflow-123'' open_page) = Some 1"
    "timers (ws_onclose ''demo-workflow-123'' open_page) =
       [\<lparr>timer_id = 1, delay = 3000, action = Reconnect ''demo-workflow-123''\<rparr>]"
    by (simp_all add: ws_onclose_def setTimeout_def open_page_def ws_onopen_def connect_def
          new_WebSocket_def initial_page_def clearTimeout_def Let_def)
  note c7 = teardown_clears_tracked_timer [of None "ws_onclose ''demo-workflow-123'' open_page" 1]
  have a: "timers (teardown None (ws_onclose ''demo-workflow-123'' open_page)) = []"
    unfolding c7 [THEN conjunct1] st by simp
  have b: "fire_timer 1 (teardown None (ws_onclose ''demo-workflow-123'' open_page)) =
       teardown None (ws_onclose ''demo-workflow-123'' open_page)"
    using c7 [THEN conjunct2, THEN conjunct1] st by blast
  have ref: "reconnectTimeoutRef fallback_page = None"
    unfolding fallback_page_eq by (simp add: initial_page_def)
  have c: "\<forall>x \<in> set (timers fallback_page). x \<in> set (timers (teardown None fallback_page))"
    using teardown_clears_tracked_timer [of None fallback_page 1, THEN conjunct2, THEN conjunct2,
        THEN conjunct2] ref by simp
  from c have c': "set (timers fallback_page) \<subseteq> set (timers (teardown None fallback_page))"
    by blast
  from st a b c' show ?thesis by (intro conjI)
qed

end
